theory Spec2Isabelle
  imports Main "HOL-Library.Word"
begin

section \<open>Status codes\<close>

text \<open>
  \<open>apr_status_t\<close> values that the response bucket and the SSL buckets produce or test for.
  \<open>ERANGE\<close> is the errno value that \<open>run_machine\<close> returns as a status. The
  \<open>SERF_ERROR_*\<close> codes are separate numeric identities; the response bucket source never
  mentions any of them.
\<close>

datatype apr_status =
    APR_SUCCESS
  | APR_EOF
  | APR_EAGAIN
  | APR_EGENERAL
  | ERANGE
  | SERF_ERROR_WAIT_CONN
  | SERF_ERROR_BAD_HTTP_RESPONSE
  | SERF_ERROR_TRUNCATED_HTTP_RESPONSE
  | SERF_ERROR_LINE_TOO_LONG
  | SERF_ERROR_BAD_HEADER
  | SERF_ERROR_SSL_SETUP_FAILED
  | SERF_ERROR_SSL_COMM_FAILED
  | SERF_ERROR_SSL_CERT_FAILED
  | SERF_ERROR_SSL_NEGOTIATE_IN_PROGRESS

text \<open>The macro \<open>SERF_BUCKET_READ_ERROR\<close>: a status that is neither success nor a
  flow-control signal.\<close>

definition SERF_BUCKET_READ_ERROR :: "apr_status \<Rightarrow> bool" where
  "SERF_BUCKET_READ_ERROR status =
     (status \<noteq> APR_SUCCESS \<and> status \<noteq> APR_EOF \<and> status \<noteq> APR_EAGAIN
      \<and> status \<noteq> SERF_ERROR_WAIT_CONN)"

section \<open>Characters\<close>

definition CR :: char where "CR = CHR 0x0D"
definition LF :: char where "LF = CHR 0x0A"
definition NUL :: char where "NUL = CHR 0x00"

abbreviation CRLF :: string where "CRLF \<equiv> [CHR 0x0D, CHR 0x0A]"

text \<open>\<open>apr_isspace\<close> and \<open>apr_isdigit\<close> in the C locale.\<close>

definition apr_isspace :: "char \<Rightarrow> bool" where
  "apr_isspace c = (c = CHR 0x20 \<or> c = CHR 0x09 \<or> c = CHR 0x0A \<or> c = CHR 0x0B
                    \<or> c = CHR 0x0C \<or> c = CHR 0x0D)"

definition apr_isdigit :: "char \<Rightarrow> bool" where
  "apr_isdigit c = (c \<in> set ''0123456789'')"

definition digit_val :: "char \<Rightarrow> int" where
  "digit_val c = int (of_char c) - 48"

section \<open>The underlying byte stream\<close>

text \<open>
  Modelled from the spec: the bucket that a response bucket reads from (the simple and the
  mock bucket are not among the sources). A stream is a script of blocks; each block holds
  the bytes that are visible at once and the status reported when the block has been handed
  out completely. \<open>SERF_BUCKET_SIMPLE_STRING s\<close> is the single block \<open>(s, APR_EOF)\<close>; an
  exhausted stream reports \<open>APR_EOF\<close> with no bytes.
\<close>

type_synonym bucket = "(string \<times> apr_status) list"

definition SERF_BUCKET_SIMPLE_STRING :: "string \<Rightarrow> bucket" where
  "SERF_BUCKET_SIMPLE_STRING s = [(s, APR_EOF)]"

text \<open>\<open>read(max)\<close>: up to \<open>max\<close> bytes of the current block.\<close>

fun serf_bucket_read :: "bucket \<Rightarrow> nat \<Rightarrow> apr_status \<times> string \<times> bucket" where
  "serf_bucket_read [] requested = (APR_EOF, [], [])"
| "serf_bucket_read ((d, st) # rest) requested =
     (if requested < length d
      then (APR_SUCCESS, take requested d, (drop requested d, st) # rest)
      else (st, d, rest))"

text \<open>\<open>peek\<close>: the visible bytes, not consumed; \<open>APR_EOF\<close> when what is shown is all
  there is, an error status of the block as it is.\<close>

fun serf_bucket_peek :: "bucket \<Rightarrow> apr_status \<times> string" where
  "serf_bucket_peek [] = (APR_EOF, [])"
| "serf_bucket_peek ((d, st) # rest) =
     (if SERF_BUCKET_READ_ERROR st then (st, d)
      else if rest = [] then (APR_EOF, d)
      else (APR_SUCCESS, d))"

datatype newline =
    SERF_NEWLINE_NONE
  | SERF_NEWLINE_CR
  | SERF_NEWLINE_LF
  | SERF_NEWLINE_CRLF
  | SERF_NEWLINE_CRLF_SPLIT

text \<open>Scanning the visible bytes for the first line ending when every kind is acceptable
  (\<open>SERF_NEWLINE_ANY\<close>): the kind found and the number of bytes up to and including it.
  A CR that is the last visible byte is reported as \<open>SERF_NEWLINE_CRLF_SPLIT\<close>.\<close>

fun scan_line :: "string \<Rightarrow> newline \<times> nat" where
  "scan_line [] = (SERF_NEWLINE_NONE, 0)"
| "scan_line (c # cs) =
     (if c = LF then (SERF_NEWLINE_LF, 1)
      else if c = CR then
        (case cs of
           [] \<Rightarrow> (SERF_NEWLINE_CRLF_SPLIT, 1)
         | c' # _ \<Rightarrow> if c' = LF then (SERF_NEWLINE_CRLF, 2) else (SERF_NEWLINE_CR, 1))
      else (case scan_line cs of (found, n) \<Rightarrow> (found, Suc n)))"

text \<open>\<open>readline(SERF_NEWLINE_ANY)\<close>: the returned data includes the terminator.\<close>

fun serf_bucket_readline :: "bucket \<Rightarrow> apr_status \<times> newline \<times> string \<times> bucket" where
  "serf_bucket_readline [] = (APR_EOF, SERF_NEWLINE_NONE, [], [])"
| "serf_bucket_readline ((d, st) # rest) =
     (case scan_line d of (found, n) \<Rightarrow>
        if n < length d
        then (APR_SUCCESS, found, take n d, (drop n d, st) # rest)
        else (st, found, d, rest))"

section \<open>The response bucket\<close>

text \<open>\<open>LINE_LIMIT\<close>, the size of the line buffer.\<close>

definition LINE_LIMIT :: nat where
  "LINE_LIMIT = 8000"

datatype response_state = STATE_STATUS_LINE | STATE_HEADERS | STATE_BODY

datatype line_state = LINE_EMPTY | LINE_READY | LINE_PARTIAL | LINE_CRLF_SPLIT

record serf_status_line =
  version :: int
  code :: int
  reason :: string

text \<open>
  \<open>response_context_t\<close>. The buffer \<open>line\<close> is kept as the list of bytes written so far;
  a byte beyond the end of the list reads as NUL. \<open>body_left\<close> is an \<open>apr_int64_t\<close>.
  \<open>metadata\<close> is the bucket's \<open>SERF_RESPONSE_HEADERS\<close> hash (the destructor walks it as an
  \<open>apr_hash_t\<close> of key and value): the newest entry for a key is the one found.
\<close>

record response_context_t =
  stream :: bucket
  state :: response_state
  lstate :: line_state
  line_used :: nat
  line :: string
  sl :: serf_status_line
  chunked :: int
  body_left :: "64 word"
  metadata :: "(string \<times> string) list"

text \<open>\<open>serf_bucket_response_create\<close> allocates the context and sets only \<open>stream\<close>; every
  other field keeps what the allocated memory \<open>mem\<close> held.\<close>

definition serf_bucket_response_create :: "bucket \<Rightarrow> response_context_t \<Rightarrow> response_context_t" where
  "serf_bucket_response_create strm mem = mem\<lparr>stream := strm\<rparr>"

text \<open>Memory filled with zero bytes: the first enumerator of both state fields.\<close>

definition zero_mem :: response_context_t where
  "zero_mem = \<lparr>stream = [], state = STATE_STATUS_LINE, lstate = LINE_EMPTY, line_used = 0,
     line = [], sl = \<lparr>version = 0, code = 0, reason = []\<rparr>, chunked = 0, body_left = 0,
     metadata = []\<rparr>"

text \<open>Reading one byte of the line buffer, and \<open>memcpy\<close> into it at an offset.\<close>

definition buf_at :: "string \<Rightarrow> nat \<Rightarrow> char" where
  "buf_at buf i = (if i < length buf then buf ! i else NUL)"

definition memcpy_at :: "string \<Rightarrow> nat \<Rightarrow> string \<Rightarrow> string" where
  "memcpy_at buf off data =
     take off (buf @ replicate (off - length buf) NUL) @ data @ drop (off + length data) buf"

text \<open>
  One pass through the body of the \<open>while (1)\<close> loop of \<open>fetch_line\<close>: \<open>Inl\<close> is a
  \<open>return\<close> with its status, \<open>Inr\<close> goes round the loop again.
\<close>

definition fetch_line_body ::
  "response_context_t \<Rightarrow> (apr_status \<times> response_context_t) + response_context_t" where
  "fetch_line_body ctx =
     (if lstate ctx = LINE_CRLF_SPLIT then
        (case serf_bucket_peek (stream ctx) of (status, data) \<Rightarrow>
           let ctx1 =
                 (if length data > 0
                  then (if hd data = LF
                        then ctx\<lparr>stream := snd (snd (serf_bucket_read (stream ctx) 1))\<rparr>
                        else ctx)\<lparr>lstate := LINE_READY\<rparr>
                  else ctx)
           in if status \<noteq> APR_SUCCESS \<or> lstate ctx1 = LINE_READY
              then Inl (status, ctx1) else Inr ctx1)
      else
        (case serf_bucket_readline (stream ctx) of (status, found, data, bkt) \<Rightarrow>
           let ctx1 = ctx\<lparr>stream := bkt\<rparr> in
           if status \<noteq> APR_SUCCESS then Inl (status, ctx1)
           else if line_used ctx1 + length data > LINE_LIMIT then Inl (APR_EGENERAL, ctx1)
           else
             let len = (if found = SERF_NEWLINE_NONE then length data
                        else if found = SERF_NEWLINE_CRLF_SPLIT then length data - 1
                        else length data - (1 + (if found = SERF_NEWLINE_CRLF then 1 else 0)));
                 ls = (if found = SERF_NEWLINE_NONE then LINE_PARTIAL
                       else if found = SERF_NEWLINE_CRLF_SPLIT then LINE_CRLF_SPLIT
                       else LINE_READY);
                 ctx2 = ctx1\<lparr>lstate := ls,
                             line := memcpy_at (line ctx1) (line_used ctx1) (take len data),
                             line_used := line_used ctx1 + len\<rparr>
             in if lstate ctx2 = LINE_READY then Inl (status, ctx2) else Inr ctx2))"

text \<open>The loop itself. It has no bound in the source: \<open>None\<close> is a call that never
  returns.\<close>

partial_function (option) fetch_line_loop ::
  "response_context_t \<Rightarrow> (apr_status \<times> response_context_t) option" where
  "fetch_line_loop ctx =
     (case fetch_line_body ctx of
        Inl r \<Rightarrow> Some r
      | Inr ctx1 \<Rightarrow> fetch_line_loop ctx1)"

text \<open>\<open>fetch_line\<close>: a line that was ready is taken as used, then the loop runs.\<close>

definition fetch_line :: "response_context_t \<Rightarrow> (apr_status \<times> response_context_t) option" where
  "fetch_line ctx =
     fetch_line_loop (if lstate ctx = LINE_READY
                      then ctx\<lparr>lstate := LINE_EMPTY, line_used := 0\<rparr> else ctx)"

declare fetch_line_loop.simps [code]

text \<open>The \<open>n\<close> bytes of a buffer from offset \<open>off\<close> on (what \<open>serf_bstrmemdup\<close> copies), and
  \<open>memchr\<close> over the first \<open>n\<close> bytes.\<close>

definition buf_bytes :: "string \<Rightarrow> nat \<Rightarrow> nat \<Rightarrow> string" where
  "buf_bytes buf off n = map (buf_at buf) [off ..< off + n]"

definition memchr :: "string \<Rightarrow> char \<Rightarrow> nat \<Rightarrow> nat option" where
  "memchr buf c n =
     (let xs = buf_bytes buf 0 n
      in if c \<in> set xs then Some (length (takeWhile (\<lambda>x. x \<noteq> c) xs)) else None)"

text \<open>The offset of the first byte at or after \<open>i\<close> that is not white space. The scan reads
  the buffer as a C string: it is not bounded by \<open>line_used\<close>.\<close>

definition skip_space :: "string \<Rightarrow> nat \<Rightarrow> nat" where
  "skip_space buf i = i + length (takeWhile apr_isspace (drop i buf))"

text \<open>
  \<open>apr_strtoi64(buf + start, &end, 10)\<close>: white space, an optional sign, decimal digits.
  The result is the value, whether \<open>errno\<close> is \<open>ERANGE\<close> afterwards, and the end offset;
  without a digit the value is 0 and the end is the start.
\<close>

definition apr_strtoi64 :: "string \<Rightarrow> nat \<Rightarrow> int \<times> bool \<times> nat" where
  "apr_strtoi64 buf start =
     (let i = skip_space buf start;
          neg = (buf_at buf i = CHR ''-'');
          j = (if buf_at buf i = CHR ''-'' \<or> buf_at buf i = CHR ''+'' then Suc i else i);
          ds = takeWhile apr_isdigit (drop j buf);
          v = foldl (\<lambda>a c. 10 * a + digit_val c) 0 ds
      in if ds = [] then (0, False, start)
         else if neg then
           (if v > 2 ^ 63 then (- (2 ^ 63), True, j + length ds) else (- v, False, j + length ds))
         else
           (if v > 2 ^ 63 - 1 then (2 ^ 63 - 1, True, j + length ds)
            else (v, False, j + length ds)))"

text \<open>\<open>apr_date_checkmask\<close> for a mask of literal bytes, \<open>#\<close> (a digit) and \<open>*\<close> (anything
  from here on), reading the data from offset \<open>i\<close>.\<close>

fun apr_date_checkmask :: "string \<Rightarrow> nat \<Rightarrow> string \<Rightarrow> bool" where
  "apr_date_checkmask buf i [] = (buf_at buf i = NUL)"
| "apr_date_checkmask buf i (m # ms) =
     (if m = CHR ''*'' then True
      else if m = CHR ''#'' then apr_isdigit (buf_at buf i) \<and> apr_date_checkmask buf (Suc i) ms
      else buf_at buf i = m \<and> apr_date_checkmask buf (Suc i) ms)"

definition SERF_HTTP_VERSION :: "int \<Rightarrow> int \<Rightarrow> int" where
  "SERF_HTTP_VERSION major minor = major * 1000 + minor"

text \<open>
  The header branch inside the loop of \<open>run_machine\<close>: \<open>Inl\<close> is the early \<open>return\<close>.
  When the white-space skip ends beyond \<open>line_used\<close> the length handed to
  \<open>serf_bstrmemdup\<close> is negative as a pointer difference; the model has no result there.
\<close>

definition parse_header :: "response_context_t \<Rightarrow> (apr_status + response_context_t) option" where
  "parse_header ctx =
     (case memchr (line ctx) (CHR '':'') (line_used ctx) of
        None \<Rightarrow> Some (Inl APR_EGENERAL)
      | Some end_key \<Rightarrow>
          let c = skip_space (line ctx) (Suc end_key) in
          if c \<le> line_used ctx
          then Some (Inr (ctx\<lparr>metadata :=
                 (buf_bytes (line ctx) 0 end_key, buf_bytes (line ctx) c (line_used ctx - c))
                 # metadata ctx\<rparr>))
          else None)"

text \<open>The \<open>do ... while (!status && ctx->line_used)\<close> loop of the \<open>STATE_HEADERS\<close> case. A
  status other than success is a \<open>return\<close> out of \<open>run_machine\<close>; success is the normal
  end of the loop.\<close>

partial_function (option) read_headers ::
  "response_context_t \<Rightarrow> (apr_status \<times> response_context_t) option" where
  "read_headers ctx =
     (case fetch_line ctx of
        None \<Rightarrow> None
      | Some (status, ctx1) \<Rightarrow>
          if status \<noteq> APR_SUCCESS then Some (status, ctx1)
          else
            (case (if lstate ctx1 = LINE_READY \<and> line_used ctx1 \<noteq> 0
                   then parse_header ctx1 else Some (Inr ctx1)) of
               None \<Rightarrow> None
             | Some (Inl e) \<Rightarrow> Some (e, ctx1)
             | Some (Inr ctx2) \<Rightarrow>
                 if line_used ctx2 \<noteq> 0 then read_headers ctx2 else Some (APR_SUCCESS, ctx2)))"

declare read_headers.simps [code]

text \<open>\<open>run_machine\<close>. In \<open>STATE_BODY\<close> the source returns its local \<open>status\<close> without
  having assigned it; no caller runs the machine in that state.\<close>

definition run_machine :: "response_context_t \<Rightarrow> (apr_status \<times> response_context_t) option" where
  "run_machine ctx =
     (case state ctx of
        STATE_STATUS_LINE \<Rightarrow>
          (case fetch_line ctx of
             None \<Rightarrow> None
           | Some (status, ctx1) \<Rightarrow>
               Some (status, if status = APR_SUCCESS then ctx1\<lparr>state := STATE_HEADERS\<rparr> else ctx1))
      | STATE_HEADERS \<Rightarrow>
          (case read_headers ctx of
             None \<Rightarrow> None
           | Some (status, ctx1) \<Rightarrow>
               if status \<noteq> APR_SUCCESS then Some (status, ctx1)
               else
                 (case map_of (metadata ctx1) ''Content-Length'' of
                    None \<Rightarrow> Some (status, ctx1\<lparr>state := STATE_BODY\<rparr>)
                  | Some v \<Rightarrow>
                      (case apr_strtoi64 v 0 of (n, erange, e) \<Rightarrow>
                         let ctx2 = ctx1\<lparr>chunked := 0, body_left := word_of_int n\<rparr> in
                         if erange then Some (ERANGE, ctx2)
                         else Some (status, ctx2\<lparr>state := STATE_BODY\<rparr>))))
      | STATE_BODY \<Rightarrow> None)"

partial_function (option) wait_for_sline ::
  "response_context_t \<Rightarrow> (apr_status \<times> response_context_t) option" where
  "wait_for_sline ctx =
     (if state ctx = STATE_STATUS_LINE then
        (case run_machine ctx of
           None \<Rightarrow> None
         | Some (status, ctx1) \<Rightarrow>
             if status \<noteq> APR_SUCCESS then Some (status, ctx1) else wait_for_sline ctx1)
      else Some (APR_SUCCESS, ctx))"

declare wait_for_sline.simps [code]

partial_function (option) wait_for_body ::
  "response_context_t \<Rightarrow> (apr_status \<times> response_context_t) option" where
  "wait_for_body ctx =
     (if state ctx \<noteq> STATE_BODY then
        (case run_machine ctx of
           None \<Rightarrow> None
         | Some (status, ctx1) \<Rightarrow>
             if status \<noteq> APR_SUCCESS then Some (status, ctx1) else wait_for_body ctx1)
      else Some (APR_SUCCESS, ctx))"

declare wait_for_body.simps [code]

text \<open>
  \<open>serf_bucket_response_status\<close>: the status, the status line stored through \<open>sline\<close> (if
  any) and the context. \<open>sl.code\<close> is an \<open>int\<close>; the copy of the reason takes
  \<open>line_used - (reason - line)\<close> bytes, which has no meaning when the reason pointer is
  beyond \<open>line_used\<close>.
\<close>

definition serf_bucket_response_status ::
  "response_context_t \<Rightarrow> (apr_status \<times> serf_status_line option \<times> response_context_t) option" where
  "serf_bucket_response_status ctx =
     (if state ctx \<noteq> STATE_STATUS_LINE then Some (APR_SUCCESS, Some (sl ctx), ctx)
      else
        (case wait_for_sline ctx of
           None \<Rightarrow> None
         | Some (status, ctx1) \<Rightarrow>
             if status \<noteq> APR_SUCCESS then Some (status, None, ctx1)
             else if \<not> apr_date_checkmask (line ctx1) 0 ''HTTP/#.# ###*''
             then Some (APR_EGENERAL, None, ctx1)
             else
               (case apr_strtoi64 (line ctx1) 8 of (n, erange, r0) \<Rightarrow>
                  let r = (if apr_isspace (buf_at (line ctx1) r0) then Suc r0 else r0) in
                  if r > line_used ctx1 then None
                  else
                    let sl1 = \<lparr>version = SERF_HTTP_VERSION (digit_val (buf_at (line ctx1) 5))
                                                           (digit_val (buf_at (line ctx1) 7)),
                               code = sint (word_of_int n :: 32 word),
                               reason = buf_bytes (line ctx1) r (line_used ctx1 - r)\<rparr>
                    in Some (APR_SUCCESS, Some sl1, ctx1\<lparr>sl := sl1\<rparr>))))"

text \<open>\<open>SERF_READ_ALL_AVAIL\<close> is \<open>(apr_size_t) -1\<close>; \<open>apr_size_t\<close> is taken as 64 bits wide.\<close>

definition SERF_READ_ALL_AVAIL :: "64 word" where
  "SERF_READ_ALL_AVAIL = - 1"

text \<open>\<open>serf_response_read\<close>: the status, the bytes returned and the context. The comparison
  of \<open>requested\<close> with \<open>body_left\<close> is unsigned.\<close>

definition serf_response_read ::
  "response_context_t \<Rightarrow> 64 word \<Rightarrow> (apr_status \<times> string \<times> response_context_t) option" where
  "serf_response_read ctx requested =
     (case wait_for_body ctx of
        None \<Rightarrow> None
      | Some (rv, ctx1) \<Rightarrow>
          if rv \<noteq> APR_SUCCESS then Some (rv, [], ctx1)
          else
            let requested1 = (if requested > body_left ctx1 then body_left ctx1 else requested) in
            (case serf_bucket_read (stream ctx1) (unat requested1) of (rv1, data, bkt) \<Rightarrow>
               let ctx2 = ctx1\<lparr>stream := bkt\<rparr> in
               if rv1 = APR_SUCCESS then
                 let ctx3 = ctx2\<lparr>body_left := body_left ctx2 - of_nat (length data)\<rparr> in
                 Some (if body_left ctx3 = 0 then APR_EOF else APR_SUCCESS, data, ctx3)
               else Some (rv1, data, ctx2)))"

section \<open>The SSL bucket pair\<close>

subsection \<open>Aggregates\<close>

text \<open>
  Modelled from the spec: the aggregate bucket (its source is not among the sources). Here
  it only ever holds the simple copy buckets that \<open>bio_bucket_write\<close> appends, so it is the
  list of their byte ranges. Reading drains the children front to back, an exhausted child
  is dropped and the next one consulted in the same call, and \<open>APR_EOF\<close> is reported only
  when no child is left. \<open>read_iovec\<close> returns up to \<open>k\<close> ranges of at most \<open>n\<close> bytes
  together; \<open>read\<close> is the case of one range.
\<close>

fun aggregate_read_iovec :: "string list \<Rightarrow> nat \<Rightarrow> nat \<Rightarrow> apr_status \<times> string list \<times> string list" where
  "aggregate_read_iovec [] n k = (APR_EOF, [], [])"
| "aggregate_read_iovec (d # rest) n k =
     (if d = [] then aggregate_read_iovec rest n k
      else if k = 0 \<or> n = 0 then (APR_SUCCESS, [], d # rest)
      else if n < length d then (APR_SUCCESS, [take n d], drop n d # rest)
      else (case aggregate_read_iovec rest (n - length d) (k - 1) of
              (st, vs, r) \<Rightarrow> (st, d # vs, r)))"

definition aggregate_read :: "string list \<Rightarrow> nat \<Rightarrow> apr_status \<times> string \<times> string list" where
  "aggregate_read agg n =
     (case aggregate_read_iovec agg n 1 of (st, vs, r) \<Rightarrow> (st, concat vs, r))"

text \<open>Modelled from the spec: \<open>read_iovec\<close> on a source stream has the semantics of \<open>read\<close>;
  one range is returned when there are bytes, none otherwise.\<close>

definition serf_bucket_read_iovec :: "bucket \<Rightarrow> nat \<Rightarrow> apr_status \<times> string list \<times> bucket" where
  "serf_bucket_read_iovec b requested =
     (case serf_bucket_read b requested of
        (st, d, b1) \<Rightarrow> (st, if d = [] then [] else [d], b1))"

text \<open>
  What \<open>encrypt.stream\<close> can point to: the aggregate that
  \<open>serf_bucket_ssl_encrypt_create\<close> puts around the first request stream (its children in
  order, each a stream of its own), or a request stream as it is, which is what
  \<open>serf_ssl_encrypt_destroy_and_data\<close> installs when it moves on to a queued stream.
\<close>

datatype stream_bucket = AGGREGATE "bucket list" | BARE bucket

text \<open>
  Modelled from the spec: \<open>read_iovec\<close> of an aggregate whose children are streams. The
  head child is read; when it reports \<open>APR_EOF\<close> it is dropped and the next child is
  consulted in the same call, with what is left of the \<open>n\<close> bytes and the \<open>k\<close> ranges
  asked for; any other status ends the call. \<open>APR_EOF\<close> is reported only when no child is
  left.
\<close>

fun serf_aggregate_read_iovec ::
  "bucket list \<Rightarrow> nat \<Rightarrow> nat \<Rightarrow> apr_status \<times> string list \<times> bucket list" where
  "serf_aggregate_read_iovec [] n k = (APR_EOF, [], [])"
| "serf_aggregate_read_iovec (b # rest) n k =
     (if n = 0 \<or> k = 0 then (APR_SUCCESS, [], b # rest)
      else
        (case serf_bucket_read_iovec b n of
           (st, vs, b1) \<Rightarrow>
             if st = APR_EOF
             then (case serf_aggregate_read_iovec rest (n - length (concat vs)) (k - length vs) of
                     (st', vs', r) \<Rightarrow> (st', vs @ vs', r))
             else (st, vs, b1 # rest)))"

text \<open>\<open>serf_bucket_read_iovec\<close> as \<open>ssl_encrypt\<close> calls it on \<open>encrypt.stream\<close>, with room for
  64 ranges: the call goes to the bucket's own kind.\<close>

definition stream_read_iovec ::
  "stream_bucket \<Rightarrow> nat \<Rightarrow> apr_status \<times> string list \<times> stream_bucket" where
  "stream_read_iovec s requested =
     (case s of
        AGGREGATE cs \<Rightarrow>
          (case serf_aggregate_read_iovec cs requested 64 of
             (st, vs, cs1) \<Rightarrow> (st, vs, AGGREGATE cs1))
      | BARE b \<Rightarrow>
          (case serf_bucket_read_iovec b requested of (st, vs, b1) \<Rightarrow> (st, vs, BARE b1)))"

text \<open>\<open>serf_bucket_aggregate_prepend\<close> of a simple bucket that owns the bytes \<open>d\<close>: it
  becomes the first child. The function takes the bucket it is given to be an aggregate; on
  a bucket of another kind it has no defined result.\<close>

definition serf_bucket_aggregate_prepend :: "stream_bucket \<Rightarrow> string \<Rightarrow> stream_bucket option" where
  "serf_bucket_aggregate_prepend s d =
     (case s of
        AGGREGATE cs \<Rightarrow> Some (AGGREGATE (SERF_BUCKET_SIMPLE_STRING d # cs))
      | BARE b \<Rightarrow> None)"

subsection \<open>The shared context\<close>

text \<open>
  Modelled from the spec: \<open>serf_databuf_t\<close> (the databuf helper is not among the sources):
  the bytes of the scratch buffer from the current position on, and the status that the
  reader returned when it filled the buffer.
\<close>

record serf_databuf_t =
  db_current :: string
  db_status :: apr_status

text \<open>Modelled from the spec: \<open>serf_databuf_init\<close>, an empty buffer that has not seen the
  end of its data.\<close>

definition serf_databuf_init :: serf_databuf_t where
  "serf_databuf_init = \<lparr>db_current = [], db_status = APR_SUCCESS\<rparr>"

text \<open>
  \<open>serf_ssl_context_t\<close>, without the fields of the certificate callbacks, the pool, the
  allocator and the configuration. A bucket pointer
  is \<open>None\<close> when it is NULL and otherwise holds what is left of the bucket it points to.
  \<open>encrypt_databuf\<close>, \<open>encrypt_stream\<close> and \<open>encrypt_stream_next\<close> are \<open>encrypt.databuf\<close>,
  \<open>encrypt.stream\<close> and \<open>encrypt.stream_next\<close>, and likewise for \<open>decrypt\<close>; \<open>info_callback\<close>
  tells whether \<open>detect_renegotiate\<close> is installed in the \<open>SSL_CTX\<close>.
\<close>

record serf_ssl_context_t =
  refcount :: int
  encrypt_databuf :: serf_databuf_t
  encrypt_stream :: "stream_bucket option"
  encrypt_stream_next :: "bucket list"
  decrypt_databuf :: serf_databuf_t
  decrypt_stream :: "bucket option"
  crypt_status :: apr_status
  encrypt_pending :: "string list option"
  want_read :: bool
  pending_err :: apr_status
  fatal_err :: apr_status
  renegotiation :: bool
  info_callback :: bool

text \<open>The address of one of the two stream fields, and of one of the two databufs, of the
  shared context.\<close>

datatype stream_field = ENCRYPT_STREAM | DECRYPT_STREAM

datatype databuf_field = ENCRYPT_DATABUF | DECRYPT_DATABUF

text \<open>\<open>ssl_context_t\<close>, the data of one bucket of the pair: \<open>databuf\<close> points to the databuf
  it reads through and \<open>our_stream\<close> to a stream field of the shared context.\<close>

record ssl_context_t =
  databuf :: databuf_field
  our_stream :: stream_field

text \<open>Dereferencing \<open>our_stream\<close>; the decrypt stream is never an aggregate of the pair's
  own making.\<close>

definition deref_stream :: "serf_ssl_context_t \<Rightarrow> stream_field \<Rightarrow> stream_bucket option" where
  "deref_stream ssl_ctx f =
     (case f of
        ENCRYPT_STREAM \<Rightarrow> encrypt_stream ssl_ctx
      | DECRYPT_STREAM \<Rightarrow> map_option BARE (decrypt_stream ssl_ctx))"

text \<open>Dereferencing \<open>databuf\<close>, and storing through it.\<close>

definition deref_databuf :: "serf_ssl_context_t \<Rightarrow> databuf_field \<Rightarrow> serf_databuf_t" where
  "deref_databuf ssl_ctx f =
     (case f of
        ENCRYPT_DATABUF \<Rightarrow> encrypt_databuf ssl_ctx
      | DECRYPT_DATABUF \<Rightarrow> decrypt_databuf ssl_ctx)"

definition store_databuf ::
  "serf_ssl_context_t \<Rightarrow> databuf_field \<Rightarrow> serf_databuf_t \<Rightarrow> serf_ssl_context_t" where
  "store_databuf ssl_ctx f db =
     (case f of
        ENCRYPT_DATABUF \<Rightarrow> ssl_ctx\<lparr>encrypt_databuf := db\<rparr>
      | DECRYPT_DATABUF \<Rightarrow> ssl_ctx\<lparr>decrypt_databuf := db\<rparr>)"

subsection \<open>The TLS engine and the hooks it calls\<close>

text \<open>
  The engine is a collaborator. What it does during one \<open>SSL_read\<close> or \<open>SSL_write\<close> is
  given from outside: the hooks it invokes in order, its return value, what
  \<open>SSL_get_error\<close>, \<open>SSL_get_shutdown\<close> and \<open>SSL_in_init\<close> report afterwards, and the
  plaintext \<open>SSL_read\<close> stored.
\<close>

datatype ssl_error =
    SSL_ERROR_NONE
  | SSL_ERROR_SSL
  | SSL_ERROR_WANT_READ
  | SSL_ERROR_WANT_WRITE
  | SSL_ERROR_WANT_X509_LOOKUP
  | SSL_ERROR_SYSCALL
  | SSL_ERROR_ZERO_RETURN

datatype hook =
    BIO_READ nat
  | BIO_WRITE string
  | INFO_CALLBACK bool
  | VERIFY_CALLBACK apr_status

record engine_call =
  hooks :: "hook list"
  ssl_len :: int
  ssl_err :: ssl_error
  received_shutdown :: bool
  in_init :: bool
  plaintext :: string

text \<open>\<open>bio_bucket_read\<close>: the context after the call (the value returned goes to the
  engine). A NULL decrypt stream cannot be read.\<close>

definition bio_bucket_read :: "serf_ssl_context_t \<Rightarrow> nat \<Rightarrow> serf_ssl_context_t option" where
  "bio_bucket_read ctx inlen =
     (if renegotiation ctx then Some ctx
      else
        (case decrypt_stream ctx of
           None \<Rightarrow> None
         | Some s \<Rightarrow>
             (case serf_bucket_read s inlen of
                (status, data, s1) \<Rightarrow>
                  Some (ctx\<lparr>decrypt_stream := Some s1, crypt_status := status,
                             want_read := False\<rparr>))))"

text \<open>\<open>bio_bucket_write\<close>: the bytes are appended to \<open>encrypt_pending\<close> as a copy bucket.\<close>

definition bio_bucket_write :: "serf_ssl_context_t \<Rightarrow> string \<Rightarrow> serf_ssl_context_t option" where
  "bio_bucket_write ctx bytes =
     (if renegotiation ctx then Some ctx
      else
        (case encrypt_pending ctx of
           None \<Rightarrow> None
         | Some p \<Rightarrow> Some (ctx\<lparr>crypt_status := APR_SUCCESS, encrypt_pending := Some (p @ [bytes])\<rparr>)))"

text \<open>\<open>detect_renegotiate\<close>; the argument tells whether \<open>SSL_state\<close> is
  \<open>SSL_ST_RENEGOTIATE\<close>.\<close>

definition detect_renegotiate :: "serf_ssl_context_t \<Rightarrow> bool \<Rightarrow> serf_ssl_context_t" where
  "detect_renegotiate ssl_ctx renegotiate =
     (if renegotiate
      then ssl_ctx\<lparr>renegotiation := True, fatal_err := SERF_ERROR_SSL_NEGOTIATE_IN_PROGRESS\<rparr>
      else ssl_ctx)"

text \<open>One hook invocation, and the hooks of one engine call in order. The info callback
  runs only when it is installed; a verification callback that fails stores its status in
  \<open>pending_err\<close>.\<close>

definition run_hook :: "serf_ssl_context_t \<Rightarrow> hook \<Rightarrow> serf_ssl_context_t option" where
  "run_hook ctx h =
     (case h of
        BIO_READ inlen \<Rightarrow> bio_bucket_read ctx inlen
      | BIO_WRITE bytes \<Rightarrow> bio_bucket_write ctx bytes
      | INFO_CALLBACK renegotiate \<Rightarrow>
          Some (if info_callback ctx then detect_renegotiate ctx renegotiate else ctx)
      | VERIFY_CALLBACK status \<Rightarrow> Some (ctx\<lparr>pending_err := status\<rparr>))"

fun run_hooks :: "serf_ssl_context_t \<Rightarrow> hook list \<Rightarrow> serf_ssl_context_t option" where
  "run_hooks ctx [] = Some ctx"
| "run_hooks ctx (h # hs) =
     (case run_hook ctx h of None \<Rightarrow> None | Some ctx1 \<Rightarrow> run_hooks ctx1 hs)"

subsection \<open>The two databuf readers\<close>

text \<open>
  \<open>ssl_decrypt\<close>: the status, the bytes stored for the caller and the context. \<open>SSL_read\<close>
  takes the first of the engine calls on offer; \<open>None\<close> is a hook that dereferenced a NULL
  pointer, or an \<open>SSL_read\<close> for which no engine call is given.
\<close>

definition ssl_decrypt ::
  "serf_ssl_context_t \<Rightarrow> nat \<Rightarrow> engine_call list
     \<Rightarrow> (apr_status \<times> string \<times> serf_ssl_context_t) option" where
  "ssl_decrypt ctx bufsize script =
     (if fatal_err ctx \<noteq> APR_SUCCESS then Some (fatal_err ctx, [], ctx)
      else
        (case script of
           [] \<Rightarrow> None
         | ec # script1 \<Rightarrow>
        (case run_hooks (ctx\<lparr>want_read := False, crypt_status := APR_SUCCESS\<rparr>) (hooks ec) of
           None \<Rightarrow> None
         | Some ctx1 \<Rightarrow>
             if ssl_len ec < 0 then
               (case ssl_err ec of
                  SSL_ERROR_SYSCALL \<Rightarrow> Some (crypt_status ctx1, [], ctx1)
                | SSL_ERROR_WANT_READ \<Rightarrow> Some (APR_EAGAIN, [], ctx1)
                | SSL_ERROR_WANT_WRITE \<Rightarrow> Some (APR_EAGAIN, [], ctx1)
                | SSL_ERROR_SSL \<Rightarrow>
                    if pending_err ctx1 \<noteq> APR_SUCCESS
                    then Some (pending_err ctx1, [], ctx1\<lparr>pending_err := APR_SUCCESS\<rparr>)
                    else
                      let e = (if in_init ec then SERF_ERROR_SSL_SETUP_FAILED
                               else SERF_ERROR_SSL_COMM_FAILED)
                      in Some (e, [], ctx1\<lparr>fatal_err := e\<rparr>)
                | _ \<Rightarrow> Some (SERF_ERROR_SSL_COMM_FAILED, [],
                             ctx1\<lparr>fatal_err := SERF_ERROR_SSL_COMM_FAILED\<rparr>))
             else if ssl_len ec = 0 then
               (if received_shutdown ec \<and> ssl_err ec = SSL_ERROR_ZERO_RETURN
                then Some (APR_EOF, [], ctx1)
                else Some (SERF_ERROR_SSL_COMM_FAILED, [],
                           ctx1\<lparr>fatal_err := SERF_ERROR_SSL_COMM_FAILED\<rparr>))
             else Some (crypt_status ctx1, take (nat (ssl_len ec)) (plaintext ec), ctx1))))"

text \<open>
  One pass through the \<open>do ... while (!status && interim_bufsize)\<close> loop of \<open>ssl_encrypt\<close>:
  the status, the engine calls not yet used, \<open>interim_bufsize\<close> and the context. Each
  \<open>SSL_write\<close> takes the next engine call; \<open>None\<close> is a NULL pointer dereferenced, an
  \<open>SSL_write\<close> for which no engine call is given, or a put-back onto a stream that is not
  an aggregate. A status that is a read error after \<open>SSL_ERROR_SYSCALL\<close> is the \<open>return\<close>
  from inside the loop; as the code after the loop does nothing for such a status, the
  result is the same.
\<close>

definition ssl_encrypt_body ::
  "engine_call list \<Rightarrow> nat \<Rightarrow> serf_ssl_context_t
     \<Rightarrow> (apr_status \<times> engine_call list \<times> nat \<times> serf_ssl_context_t) option" where
  "ssl_encrypt_body script interim_bufsize ctx =
     (if \<not> want_read ctx then
        (case encrypt_stream ctx of
           None \<Rightarrow> None
         | Some s \<Rightarrow>
             (case stream_read_iovec s interim_bufsize of
                (status, vecs, s1) \<Rightarrow>
                  let ctx1 = ctx\<lparr>encrypt_stream := Some s1\<rparr> in
                  if \<not> SERF_BUCKET_READ_ERROR status \<and> vecs \<noteq> [] then
                    (case script of
                       [] \<Rightarrow> None
                     | ec # script1 \<Rightarrow>
                         let vecs_data = concat vecs;
                             interim1 = interim_bufsize - length vecs_data
                         in
                         (case run_hooks (ctx1\<lparr>crypt_status := APR_SUCCESS\<rparr>) (hooks ec) of
                            None \<Rightarrow> None
                          | Some ctx2 \<Rightarrow>
                              if ssl_len ec < 0 then
                                (case Option.bind (encrypt_stream ctx2)
                                        (\<lambda>s2. serf_bucket_aggregate_prepend s2 vecs_data) of
                                   None \<Rightarrow> None
                                 | Some s3 \<Rightarrow>
                                     let ctx3 = ctx2\<lparr>encrypt_stream := Some s3\<rparr> in
                                     (case ssl_err ec of
                                        SSL_ERROR_SYSCALL \<Rightarrow>
                                          Some (crypt_status ctx3, script1, interim1, ctx3)
                                      | SSL_ERROR_WANT_READ \<Rightarrow>
                                          Some (SERF_ERROR_WAIT_CONN, script1, interim1,
                                                ctx3\<lparr>want_read := True\<rparr>)
                                      | SSL_ERROR_WANT_WRITE \<Rightarrow>
                                          Some (SERF_ERROR_WAIT_CONN, script1, interim1, ctx3)
                                      | SSL_ERROR_SSL \<Rightarrow>
                                          if pending_err ctx3 \<noteq> APR_SUCCESS
                                          then Some (pending_err ctx3, script1, interim1,
                                                     ctx3\<lparr>pending_err := APR_SUCCESS\<rparr>)
                                          else
                                            let e = (if in_init ec then SERF_ERROR_SSL_SETUP_FAILED
                                                     else SERF_ERROR_SSL_COMM_FAILED)
                                            in Some (e, script1, interim1, ctx3\<lparr>fatal_err := e\<rparr>)
                                      | _ \<Rightarrow>
                                          Some (SERF_ERROR_SSL_COMM_FAILED, script1, interim1,
                                                ctx3\<lparr>fatal_err := SERF_ERROR_SSL_COMM_FAILED\<rparr>)))
                              else Some (status, script1, interim1, ctx2)))
                  else Some (status, script, interim_bufsize, ctx1)))
      else
        Some (if crypt_status ctx = APR_SUCCESS then APR_EAGAIN else crypt_status ctx,
              script, interim_bufsize, ctx))"

partial_function (option) ssl_encrypt_loop ::
  "engine_call list \<Rightarrow> nat \<Rightarrow> serf_ssl_context_t \<Rightarrow> (apr_status \<times> serf_ssl_context_t) option" where
  "ssl_encrypt_loop script interim_bufsize ctx =
     (case ssl_encrypt_body script interim_bufsize ctx of
        None \<Rightarrow> None
      | Some (status, script1, interim1, ctx1) \<Rightarrow>
          if status = APR_SUCCESS \<and> interim1 \<noteq> 0
          then ssl_encrypt_loop script1 interim1 ctx1
          else Some (status, ctx1))"

declare ssl_encrypt_loop.simps [code]

text \<open>\<open>ssl_encrypt\<close>: the status, the bytes stored for the caller and the context.\<close>

definition ssl_encrypt ::
  "serf_ssl_context_t \<Rightarrow> nat \<Rightarrow> engine_call list
     \<Rightarrow> (apr_status \<times> string \<times> serf_ssl_context_t) option" where
  "ssl_encrypt ctx bufsize script =
     (if fatal_err ctx \<noteq> APR_SUCCESS then Some (fatal_err ctx, [], ctx)
      else
        (case encrypt_pending ctx of
           None \<Rightarrow> None
         | Some p \<Rightarrow>
             (case aggregate_read p bufsize of
                (status, data, p1) \<Rightarrow>
                  let ctx1 = ctx\<lparr>encrypt_pending := Some p1\<rparr> in
                  if SERF_BUCKET_READ_ERROR status then Some (status, data, ctx1)
                  else if length data \<noteq> 0
                  then Some (if status = APR_EOF then APR_SUCCESS else status, data, ctx1)
                  else
                    (case ssl_encrypt_loop script bufsize ctx1 of
                       None \<Rightarrow> None
                     | Some (status1, ctx2) \<Rightarrow>
                         if \<not> SERF_BUCKET_READ_ERROR status1 then
                           (case encrypt_pending ctx2 of
                              None \<Rightarrow> None
                            | Some p2 \<Rightarrow>
                                (case aggregate_read_iovec p2 bufsize 64 of
                                   (agg_status, vecs, p3) \<Rightarrow>
                                     Some (if agg_status = APR_SUCCESS then APR_SUCCESS
                                           else status1,
                                           concat vecs, ctx2\<lparr>encrypt_pending := Some p3\<rparr>)))
                         else Some (status1, [], ctx2)))))"

subsection \<open>Reading through a bucket of the pair\<close>

text \<open>The reader of a databuf and its baton, as \<open>ssl_init_context\<close> sets them:
  \<open>ssl_encrypt\<close> for \<open>encrypt.databuf\<close>, \<open>ssl_decrypt\<close> for \<open>decrypt.databuf\<close>, both
  called with the shared context.\<close>

definition databuf_read ::
  "databuf_field \<Rightarrow> serf_ssl_context_t \<Rightarrow> nat \<Rightarrow> engine_call list
     \<Rightarrow> (apr_status \<times> string \<times> serf_ssl_context_t) option" where
  "databuf_read f ssl_ctx bufsize script =
     (case f of
        ENCRYPT_DATABUF \<Rightarrow> ssl_encrypt ssl_ctx bufsize script
      | DECRYPT_DATABUF \<Rightarrow> ssl_decrypt ssl_ctx bufsize script)"

text \<open>
  Modelled from the spec: \<open>common_databuf_prep\<close>, the first step of every read through a
  databuf (the call-path comment of the SSL buckets names it; the databuf helper is not
  among the sources). Bytes still in the scratch buffer are served first; a remembered
  \<open>APR_EOF\<close> is returned again; otherwise the reader is asked to fill the scratch buffer,
  of size \<open>bufsize\<close>. An error status of the reader is returned and nothing is stored;
  any other status is kept with the bytes.
\<close>

definition common_databuf_prep ::
  "databuf_field \<Rightarrow> nat \<Rightarrow> engine_call list \<Rightarrow> serf_ssl_context_t
     \<Rightarrow> (apr_status \<times> serf_ssl_context_t) option" where
  "common_databuf_prep f bufsize script ssl_ctx =
     (if db_current (deref_databuf ssl_ctx f) \<noteq> [] then Some (APR_SUCCESS, ssl_ctx)
      else if db_status (deref_databuf ssl_ctx f) = APR_EOF then Some (APR_EOF, ssl_ctx)
      else
        (case databuf_read f ssl_ctx bufsize script of
           None \<Rightarrow> None
         | Some (status, data, ctx1) \<Rightarrow>
             if SERF_BUCKET_READ_ERROR status then Some (status, ctx1)
             else Some (APR_SUCCESS,
                        store_databuf ctx1 f \<lparr>db_current = data, db_status = status\<rparr>)))"

text \<open>
  Modelled from the spec: \<open>serf_databuf_read\<close>. After the preparation up to \<open>requested\<close>
  buffered bytes are handed out and the position moves on. The status is \<open>APR_SUCCESS\<close>
  while bytes remain in the buffer, and the status kept from the reader once the buffer is
  empty.
\<close>

definition serf_databuf_read ::
  "databuf_field \<Rightarrow> nat \<Rightarrow> nat \<Rightarrow> engine_call list \<Rightarrow> serf_ssl_context_t
     \<Rightarrow> (apr_status \<times> string \<times> serf_ssl_context_t) option" where
  "serf_databuf_read f bufsize requested script ssl_ctx =
     (case common_databuf_prep f bufsize script ssl_ctx of
        None \<Rightarrow> None
      | Some (status, ctx1) \<Rightarrow>
          if status \<noteq> APR_SUCCESS then Some (status, [], ctx1)
          else
            let db = deref_databuf ctx1 f;
                db1 = db\<lparr>db_current := drop requested (db_current db)\<rparr>
            in Some (if db_current db1 \<noteq> [] then APR_SUCCESS else db_status db1,
                     take requested (db_current db), store_databuf ctx1 f db1))"

text \<open>\<open>serf_ssl_read\<close>, the \<open>read\<close> of both bucket types: the status, the bytes returned
  and the shared context. \<open>bufsize\<close> is the size of the databuf's scratch buffer.\<close>

definition serf_ssl_read ::
  "ssl_context_t \<Rightarrow> nat \<Rightarrow> nat \<Rightarrow> engine_call list \<Rightarrow> serf_ssl_context_t
     \<Rightarrow> (apr_status \<times> string \<times> serf_ssl_context_t) option" where
  "serf_ssl_read bkt bufsize requested script ssl_ctx =
     serf_databuf_read (databuf bkt) bufsize requested script ssl_ctx"

subsection \<open>Creating and destroying the buckets of the pair\<close>

text \<open>\<open>ssl_init_context\<close>: a fresh shared context.\<close>

definition ssl_init_context :: serf_ssl_context_t where
  "ssl_init_context =
     \<lparr>refcount = 0, encrypt_databuf = serf_databuf_init, encrypt_stream = None,
      encrypt_stream_next = [], decrypt_databuf = serf_databuf_init, decrypt_stream = None,
      crypt_status = APR_SUCCESS, encrypt_pending = Some [], want_read = False,
      pending_err = APR_SUCCESS, fatal_err = APR_SUCCESS, renegotiation = False,
      info_callback = False\<rparr>"

text \<open>\<open>serf_bucket_ssl_create\<close>: the context the new bucket refers to, made when the caller
  passes NULL, with its reference counted.\<close>

definition serf_bucket_ssl_create :: "serf_ssl_context_t option \<Rightarrow> serf_ssl_context_t" where
  "serf_bucket_ssl_create ssl_ctx =
     (let c = (case ssl_ctx of None \<Rightarrow> ssl_init_context | Some c \<Rightarrow> c)
      in c\<lparr>refcount := refcount c + 1\<rparr>)"

text \<open>\<open>serf_bucket_ssl_decrypt_create\<close>: the bucket returned (\<open>None\<close> is NULL) and the shared
  context afterwards.\<close>

definition serf_bucket_ssl_decrypt_create ::
  "bucket \<Rightarrow> serf_ssl_context_t option \<Rightarrow> ssl_context_t option \<times> serf_ssl_context_t" where
  "serf_bucket_ssl_decrypt_create strm ssl_ctx =
     (let c = serf_bucket_ssl_create ssl_ctx in
      if decrypt_stream c \<noteq> None then (None, c)
      else (Some \<lparr>databuf = DECRYPT_DATABUF, our_stream = DECRYPT_STREAM\<rparr>,
            c\<lparr>decrypt_stream := Some strm\<rparr>))"

text \<open>\<open>serf_bucket_ssl_encrypt_create\<close>: the first stream becomes the active one, as the
  only child of a new aggregate; a later one is put at the end of \<open>encrypt.stream_next\<close>
  as it is. In both cases \<open>our_stream\<close> is the address of \<open>encrypt.stream\<close>.\<close>

definition serf_bucket_ssl_encrypt_create ::
  "bucket \<Rightarrow> serf_ssl_context_t option \<Rightarrow> ssl_context_t \<times> serf_ssl_context_t" where
  "serf_bucket_ssl_encrypt_create strm ssl_ctx =
     (let c = serf_bucket_ssl_create ssl_ctx in
      (\<lparr>databuf = ENCRYPT_DATABUF, our_stream = ENCRYPT_STREAM\<rparr>,
       if encrypt_stream c = None then c\<lparr>encrypt_stream := Some (AGGREGATE [strm])\<rparr>
       else c\<lparr>encrypt_stream_next := encrypt_stream_next c @ [strm]\<rparr>))"

text \<open>\<open>serf_ssl_destroy_and_data\<close>: the shared context afterwards, \<open>None\<close> when the last
  reference went and \<open>ssl_free_context\<close> freed it.\<close>

definition serf_ssl_destroy_and_data :: "serf_ssl_context_t \<Rightarrow> serf_ssl_context_t option" where
  "serf_ssl_destroy_and_data ssl_ctx =
     (let c = ssl_ctx\<lparr>refcount := refcount ssl_ctx - 1\<rparr>
      in if refcount c = 0 then None else Some c)"

text \<open>\<open>serf_ssl_decrypt_destroy_and_data\<close>: the stream is destroyed; the pointer to it stays
  in the context.\<close>

definition serf_ssl_decrypt_destroy_and_data ::
  "ssl_context_t \<Rightarrow> serf_ssl_context_t \<Rightarrow> serf_ssl_context_t option" where
  "serf_ssl_decrypt_destroy_and_data bkt ssl_ctx = serf_ssl_destroy_and_data ssl_ctx"

text \<open>
  \<open>serf_ssl_encrypt_destroy_and_data\<close>. The test compares \<open>encrypt.stream\<close> with what
  \<open>our_stream\<close> points to. When they differ the function returns at once and the context
  stays as it is. Otherwise the status of the encrypt databuf is reset (its buffer is not),
  and the next queued stream, if any, becomes \<open>encrypt.stream\<close> without an aggregate around
  it.
\<close>

definition serf_ssl_encrypt_destroy_and_data ::
  "ssl_context_t \<Rightarrow> serf_ssl_context_t \<Rightarrow> serf_ssl_context_t option" where
  "serf_ssl_encrypt_destroy_and_data bkt ssl_ctx =
     (if encrypt_stream ssl_ctx = deref_stream ssl_ctx (our_stream bkt) then
        let c = ssl_ctx\<lparr>crypt_status := APR_SUCCESS,
                        encrypt_databuf := (encrypt_databuf ssl_ctx)\<lparr>db_status := APR_SUCCESS\<rparr>\<rparr>;
            c1 = (case encrypt_stream_next c of
                    [] \<Rightarrow> c\<lparr>encrypt_stream := None, encrypt_pending := None\<rparr>
                  | cur # next \<Rightarrow>
                      c\<lparr>encrypt_stream := Some (BARE cur), encrypt_pending := Some [],
                        encrypt_stream_next := next\<rparr>)
        in serf_ssl_destroy_and_data c1
      else Some ssl_ctx)"

text \<open>\<open>serf_ssl_set_config\<close>, given what \<open>serf_config_get_string\<close> returns for
  \<open>SERF_CONFIG_CONN_PIPELINING\<close>; the streams take the configuration without a status of
  their own.\<close>

definition serf_ssl_set_config ::
  "serf_ssl_context_t \<Rightarrow> apr_status \<times> string \<Rightarrow> apr_status \<times> serf_ssl_context_t" where
  "serf_ssl_set_config ssl_ctx cfg =
     (case cfg of (status, pipelining) \<Rightarrow>
        if status \<noteq> APR_SUCCESS then (status, ssl_ctx)
        else (APR_SUCCESS,
              if pipelining = ''Y'' then ssl_ctx\<lparr>info_callback := True\<rparr> else ssl_ctx))"

section \<open>Inputs and auxiliary notions for the properties\<close>

text \<open>All bytes a stream still has to deliver.\<close>

definition bucket_bytes :: "bucket \<Rightarrow> string" where
  "bucket_bytes b = concat (map fst b)"

text \<open>A fresh context on a stream whose first block is \<open>6\<close> and a CR (as in
  \<open>test_linebuf_crlf_split\<close>), followed by a block \<open>d\<close> and more; and the context once
  that first block has been read: the buffer holds \<open>6\<close> and the line waits for the second
  half of a CRLF.\<close>

definition before_split_ctx :: "string \<Rightarrow> response_context_t" where
  "before_split_ctx d = serf_bucket_response_create
      [(''6'' @ [CR], APR_SUCCESS), (d, APR_EAGAIN), (''x'', APR_EOF)] zero_mem"

definition crlf_split_ctx :: "string \<Rightarrow> response_context_t" where
  "crlf_split_ctx d = zero_mem\<lparr>stream := [(d, APR_EAGAIN), (''x'', APR_EOF)],
      lstate := LINE_CRLF_SPLIT, line := ''6'', line_used := 1\<rparr>"

text \<open>A first line of 8001 bytes, its LF and one more byte, visible at once.\<close>

definition long_line_input :: bucket where
  "long_line_input = [(replicate 8001 (CHR ''a'') @ [LF] @ ''x'', APR_EOF)]"

text \<open>The response of \<open>test_response_body_too_small_cl\<close>: 60 body bytes under
  \<open>Content-Length: 100\<close>.\<close>

definition BODY60 :: string where
  "BODY60 = ''12345678901234567890'' @ ''12345678901234567890'' @ ''12345678901234567890''"

definition too_small_cl_input :: bucket where
  "too_small_cl_input = SERF_BUCKET_SIMPLE_STRING
     (''HTTP/1.1 200 OK'' @ CRLF @ ''Content-Type: text/plain'' @ CRLF
      @ ''Content-Length: 100'' @ CRLF @ CRLF @ BODY60)"

text \<open>The response of \<open>test_response_bucket_chunked_read\<close>.\<close>

definition chunked_input :: bucket where
  "chunked_input = SERF_BUCKET_SIMPLE_STRING
     (''HTTP/1.1 200 OK'' @ CRLF @ ''Transfer-Encoding: chunked'' @ CRLF @ CRLF
      @ ''3'' @ CRLF @ ''abc'' @ CRLF @ ''4'' @ CRLF @ ''1234'' @ CRLF @ ''0'' @ CRLF
      @ ''Footer: value'' @ CRLF @ CRLF)"

text \<open>The content of the current line: the first \<open>line_used\<close> bytes of the line buffer.\<close>

definition line_content :: "response_context_t \<Rightarrow> string" where
  "line_content ctx = buf_bytes (line ctx) 0 (line_used ctx)"


















text \<open>A context in \<open>STATE_HEADERS\<close> whose buffer holds \<open>buf\<close> and whose current line is its
  first \<open>n\<close> bytes.\<close>

definition header_ctx :: "string \<Rightarrow> nat \<Rightarrow> response_context_t" where
  "header_ctx buf n = zero_mem\<lparr>state := STATE_HEADERS, lstate := LINE_READY,
      line := buf, line_used := n\<rparr>"

text \<open>A response whose only header line has no colon.\<close>

definition no_colon_input :: bucket where
  "no_colon_input = SERF_BUCKET_SIMPLE_STRING
     (''HTTP/1.1 200 OK'' @ CRLF @ ''Content-Length 7'' @ CRLF @ CRLF @ ''abc1234'')"

text \<open>The response of \<open>test_response_bucket_headers\<close>.\<close>

definition headers_test_input :: bucket where
  "headers_test_input = SERF_BUCKET_SIMPLE_STRING
     (''HTTP/1.1 405 Method Not Allowed'' @ CRLF
      @ ''Date: Sat, 12 Jun 2010 14:17:10 GMT'' @ CRLF
      @ ''Server: Apache'' @ CRLF
      @ ''Allow: '' @ CRLF
      @ ''Content-Length: 7'' @ CRLF
      @ ''Content-Type: text/html; charset=iso-8859-1'' @ CRLF
      @ ''NoSpace:'' @ CRLF
      @ CRLF
      @ ''abc1234'')"

text \<open>The context after \<open>n\<close> header lines have been fetched and stored, as the loop of the
  \<open>STATE_HEADERS\<close> case does it, if every one of them is fetched with success and has a
  result.\<close>

fun read_header_lines :: "nat \<Rightarrow> response_context_t \<Rightarrow> response_context_t option" where
  "read_header_lines 0 ctx = Some ctx"
| "read_header_lines (Suc n) ctx =
     (case fetch_line ctx of
        None \<Rightarrow> None
      | Some (status, ctx1) \<Rightarrow>
          if status \<noteq> APR_SUCCESS then None
          else (case parse_header ctx1 of
                  Some (Inr ctx2) \<Rightarrow> read_header_lines n ctx2
                | _ \<Rightarrow> None))"

text \<open>The context of that response when the line \<open>Allow: \<close> has been fetched: the buffer
  still holds what the lines before left behind the seven bytes of the line.\<close>

definition allow_line_ctx :: response_context_t where
  "allow_line_ctx = zero_mem\<lparr>
      stream := [(''Content-Length: 7'' @ CRLF
                  @ ''Content-Type: text/html; charset=iso-8859-1'' @ CRLF
                  @ ''NoSpace:'' @ CRLF @ CRLF @ ''abc1234'', APR_EOF)],
      state := STATE_HEADERS, lstate := LINE_READY, line_used := 7,
      line := ''Allow:  ApacheJun 2010 14:17:10 GMT'',
      metadata := [(''Server'', ''Apache''), (''Date'', ''Sat, 12 Jun 2010 14:17:10 GMT'')]\<rparr>"

text \<open>
  The operations on a bucket pair: a read through a bucket of the pair (\<open>serf_ssl_read\<close>
  with the size of the scratch buffer, the number of bytes requested and what the engine
  does if it is called), the creation of a further bucket on the context, the destruction
  of a bucket, and \<open>set_config\<close>. \<open>ssl_apply\<close> gives the status of a read and the context
  afterwards, \<open>None\<close> when the context was freed or the call has no result. \<open>ssl_run\<close>
  applies operations in order as long as there is a context and collects the statuses of
  the reads.
\<close>

datatype ssl_op =
    BUCKET_READ ssl_context_t nat nat "engine_call list"
  | ENCRYPT_CREATE bucket
  | DECRYPT_CREATE bucket
  | ENCRYPT_DESTROY ssl_context_t
  | DECRYPT_DESTROY ssl_context_t
  | SET_CONFIG "apr_status \<times> string"

definition ssl_apply ::
  "ssl_op \<Rightarrow> serf_ssl_context_t \<Rightarrow> apr_status option \<times> serf_ssl_context_t option" where
  "ssl_apply op c =
     (case op of
        BUCKET_READ bkt bufsize requested script \<Rightarrow>
          (case serf_ssl_read bkt bufsize requested script c of
             None \<Rightarrow> (None, None)
           | Some (st, d, c1) \<Rightarrow> (Some st, Some c1))
      | ENCRYPT_CREATE s \<Rightarrow> (None, Some (snd (serf_bucket_ssl_encrypt_create s (Some c))))
      | DECRYPT_CREATE s \<Rightarrow> (None, Some (snd (serf_bucket_ssl_decrypt_create s (Some c))))
      | ENCRYPT_DESTROY b \<Rightarrow> (None, serf_ssl_encrypt_destroy_and_data b c)
      | DECRYPT_DESTROY b \<Rightarrow> (None, serf_ssl_decrypt_destroy_and_data b c)
      | SET_CONFIG cfg \<Rightarrow> (None, Some (snd (serf_ssl_set_config c cfg))))"

fun ssl_run :: "ssl_op list \<Rightarrow> serf_ssl_context_t \<Rightarrow> apr_status list \<times> serf_ssl_context_t option" where
  "ssl_run [] c = ([], Some c)"
| "ssl_run (op # ops) c =
     (case ssl_apply op c of
        (r, None) \<Rightarrow> (case r of None \<Rightarrow> [] | Some st \<Rightarrow> [st], None)
      | (r, Some c1) \<Rightarrow>
          (case ssl_run ops c1 of
             (rs, c2) \<Rightarrow> ((case r of None \<Rightarrow> [] | Some st \<Rightarrow> [st]) @ rs, c2)))"

text \<open>A databuf that holds neither buffered bytes nor a remembered end of data, so that the
  next read through it asks its reader.\<close>

definition databuf_drained :: "serf_databuf_t \<Rightarrow> bool" where
  "databuf_drained db = (db_current db = [] \<and> db_status db \<noteq> APR_EOF)"

text \<open>What a read of \<open>requested\<close> bytes gives when it is served from the databuf alone: the
  first bytes of the buffer, with \<open>APR_SUCCESS\<close> while bytes remain and the kept status
  otherwise; only the position of the databuf moves.\<close>

definition served_from_databuf ::
  "databuf_field \<Rightarrow> nat \<Rightarrow> serf_ssl_context_t \<Rightarrow> apr_status \<times> string \<times> serf_ssl_context_t" where
  "served_from_databuf f requested c =
     (let db = deref_databuf c f in
      (if drop requested (db_current db) \<noteq> [] then APR_SUCCESS else db_status db,
       take requested (db_current db),
       store_databuf c f (db\<lparr>db_current := drop requested (db_current db)\<rparr>)))"

text \<open>Engine calls: \<open>SSL_read\<close> fails with \<open>SSL_ERROR_SSL\<close> after the handshake;
  \<open>SSL_write\<close> takes the plaintext and writes five bytes of ciphertext; \<open>SSL_write\<close> fails
  with \<open>SSL_ERROR_SSL\<close> after the handshake; \<open>SSL_read\<close> takes five bytes of ciphertext and
  stores the plaintext \<open>hello\<close>; \<open>SSL_read\<close> finds that the peer has shut the session
  down.\<close>

definition ssl_failure :: engine_call where
  "ssl_failure = \<lparr>hooks = [BIO_READ 5], ssl_len = - 1, ssl_err = SSL_ERROR_SSL,
     received_shutdown = False, in_init = False, plaintext = []\<rparr>"

definition ssl_write_ok :: "nat \<Rightarrow> engine_call" where
  "ssl_write_ok n = \<lparr>hooks = [BIO_WRITE ''XXXXX''], ssl_len = int n, ssl_err = SSL_ERROR_NONE,
     received_shutdown = False, in_init = False, plaintext = []\<rparr>"

definition ssl_write_failure :: engine_call where
  "ssl_write_failure = \<lparr>hooks = [], ssl_len = - 1, ssl_err = SSL_ERROR_SSL,
     received_shutdown = False, in_init = False, plaintext = []\<rparr>"

definition ssl_read_hello :: engine_call where
  "ssl_read_hello = \<lparr>hooks = [BIO_READ 5], ssl_len = 5, ssl_err = SSL_ERROR_NONE,
     received_shutdown = False, in_init = False, plaintext = ''hello''\<rparr>"

definition ssl_read_shutdown :: engine_call where
  "ssl_read_shutdown = \<lparr>hooks = [], ssl_len = 0, ssl_err = SSL_ERROR_ZERO_RETURN,
     received_shutdown = True, in_init = False, plaintext = []\<rparr>"

text \<open>A pair made through the creation functions: a decrypt bucket, an encrypt bucket for a
  first request and an encrypt bucket for a second request, which is queued.\<close>

definition pair_ctx1 :: serf_ssl_context_t where
  "pair_ctx1 = snd (serf_bucket_ssl_decrypt_create [(''abcde'', APR_EAGAIN)] None)"

definition pair_ctx2 :: serf_ssl_context_t where
  "pair_ctx2 = snd (serf_bucket_ssl_encrypt_create (SERF_BUCKET_SIMPLE_STRING ''hello'')
                      (Some pair_ctx1))"

definition pair_ctx3 :: serf_ssl_context_t where
  "pair_ctx3 = snd (serf_bucket_ssl_encrypt_create (SERF_BUCKET_SIMPLE_STRING ''world'')
                      (Some pair_ctx2))"

definition decrypt_bucket :: ssl_context_t where
  "decrypt_bucket = \<lparr>databuf = DECRYPT_DATABUF, our_stream = DECRYPT_STREAM\<rparr>"

definition first_encrypt_bucket :: ssl_context_t where
  "first_encrypt_bucket = fst (serf_bucket_ssl_encrypt_create (SERF_BUCKET_SIMPLE_STRING ''hello'')
                                 (Some pair_ctx1))"

definition second_encrypt_bucket :: ssl_context_t where
  "second_encrypt_bucket = fst (serf_bucket_ssl_encrypt_create (SERF_BUCKET_SIMPLE_STRING ''world'')
                                  (Some pair_ctx2))"

text \<open>The context after \<open>SSL_read\<close> has failed on the pair, and operations to run on it.\<close>

definition failed_ctx :: serf_ssl_context_t where
  "failed_ctx = pair_ctx3\<lparr>decrypt_stream := Some [], crypt_status := APR_EAGAIN,
                          fatal_err := SERF_ERROR_SSL_COMM_FAILED\<rparr>"

definition latched_ops :: "ssl_op list" where
  "latched_ops = [BUCKET_READ first_encrypt_bucket 8000 8000 [ssl_write_ok 5], DECRYPT_CREATE [],
                  BUCKET_READ decrypt_bucket 8000 10 [ssl_failure],
                  ENCRYPT_DESTROY second_encrypt_bucket,
                  SET_CONFIG (APR_SUCCESS, ''Y''), BUCKET_READ first_encrypt_bucket 8000 10 []]"

text \<open>Operations after which a fatal error is latched while the databuf of the decrypt
  bucket still holds plaintext: two bytes of \<open>hello\<close> are read through the decrypt bucket,
  then \<open>SSL_write\<close> fails during a read through the encrypt bucket. In the second list the
  decrypt bucket has seen the end of its data instead.\<close>

definition buffered_latch_ops :: "ssl_op list" where
  "buffered_latch_ops = [BUCKET_READ decrypt_bucket 8000 2 [ssl_read_hello],
                         BUCKET_READ first_encrypt_bucket 8000 10 [ssl_write_failure]]"

definition eof_latch_ops :: "ssl_op list" where
  "eof_latch_ops = [BUCKET_READ decrypt_bucket 8000 2 [ssl_read_shutdown],
                    BUCKET_READ first_encrypt_bucket 8000 10 [ssl_write_failure]]"

text \<open>The context after the first of these lists: the error is latched and three bytes of
  plaintext wait in the databuf of the decrypt bucket.\<close>

definition buffered_latched_ctx :: serf_ssl_context_t where
  "buffered_latched_ctx =
     pair_ctx3\<lparr>decrypt_databuf := \<lparr>db_current = ''llo'', db_status = APR_EAGAIN\<rparr>,
               decrypt_stream := Some [], fatal_err := SERF_ERROR_SSL_COMM_FAILED\<rparr>"

text \<open>The pair after a read of two bytes through the encrypt bucket that left three bytes of
  ciphertext pending.\<close>

definition pending_ctx :: serf_ssl_context_t where
  "pending_ctx = pair_ctx3\<lparr>encrypt_stream := Some (AGGREGATE [[(''llo'', APR_EOF)]]),
                           encrypt_pending := Some [''XXX'']\<rparr>"

text \<open>Operations that use the pair, destroy its decrypt bucket and the queued encrypt bucket,
  and then try to attach another decrypt stream.\<close>

definition attach_ops :: "ssl_op list" where
  "attach_ops = [BUCKET_READ first_encrypt_bucket 8000 2 [ssl_write_ok 5],
                 BUCKET_READ decrypt_bucket 8000 8000 [ssl_failure],
                 DECRYPT_DESTROY decrypt_bucket,
                 ENCRYPT_DESTROY second_encrypt_bucket, DECRYPT_CREATE [(''new'', APR_EOF)]]"

section \<open>Properties\<close>

subsection \<open>The line buffer\<close>

lemma peek_read_one:
  assumes "serf_bucket_peek b = (status, c # cs)"
  shows "fst (snd (serf_bucket_read b 1)) = [c]
       \<and> bucket_bytes (snd (snd (serf_bucket_read b 1))) = tl (bucket_bytes b)"
proof (cases b)
  case Nil
  with assms show ?thesis by simp
next
  case (Cons blk rest)
  obtain d st where blk: "blk = (d, st)" by (cases blk)
  from assms Cons blk have d: "d = c # cs" by (auto split: if_splits)
  show ?thesis using Cons blk d by (cases cs) (auto simp: bucket_bytes_def)
qed

lemma scan_line_crlf_split:
  "scan_line xs = (SERF_NEWLINE_CRLF_SPLIT, n) \<Longrightarrow>
     n = length xs \<and> xs = butlast xs @ [CR] \<and> CR \<notin> set (butlast xs) \<and> LF \<notin> set (butlast xs)"
proof (induction xs arbitrary: n)
  case Nil
  then show ?case by simp
next
  case (Cons c cs)
  show ?case
  proof (cases "c = LF \<or> c = CR")
    case True
    with Cons.prems show ?thesis
      by (cases cs) (auto split: if_splits)
  next
    case False
    with Cons.prems obtain m where m: "scan_line cs = (SERF_NEWLINE_CRLF_SPLIT, m)" and n: "n = Suc m"
      by (auto split: prod.splits)
    from Cons.IH [OF m] have ih: "m = length cs" "cs = butlast cs @ [CR]"
      "CR \<notin> set (butlast cs)" "LF \<notin> set (butlast cs)" by simp_all
    from ih(2) have ne: "cs \<noteq> []" by auto
    with ih n False show ?thesis by auto
  qed
qed

lemma readline_crlf_split:
  assumes "serf_bucket_readline s = (st, SERF_NEWLINE_CRLF_SPLIT, data, s1)"
  shows "data = butlast data @ [CR] \<and> CR \<notin> set (butlast data) \<and> LF \<notin> set (butlast data)
       \<and> bucket_bytes s = data @ bucket_bytes s1"
proof (cases s)
  case Nil
  with assms show ?thesis by simp
next
  case (Cons blk rest)
  obtain d st0 where blk: "blk = (d, st0)" by (cases blk)
  obtain found n where sc: "scan_line d = (found, n)" by (cases "scan_line d")
  show ?thesis
  proof (cases "n < length d")
    case True
    with assms Cons blk sc have f: "found = SERF_NEWLINE_CRLF_SPLIT" by simp
    from scan_line_crlf_split [OF sc [unfolded f]] True show ?thesis by simp
  next
    case False
    with assms Cons blk sc have f: "found = SERF_NEWLINE_CRLF_SPLIT" and d: "data = d" "s1 = rest"
      by simp_all
    from scan_line_crlf_split [OF sc [unfolded f]] d Cons blk show ?thesis
      by (simp add: bucket_bytes_def)
  qed
qed

lemma buf_bytes_memcpy_at:
  "buf_bytes (memcpy_at buf off data) 0 (off + length data) = buf_bytes buf 0 off @ data"
proof -
  define P where "P = take off (buf @ replicate (off - length buf) NUL)"
  have lp: "length P = off" by (simp add: P_def)
  have m: "memcpy_at buf off data = P @ data @ drop (off + length data) buf"
    by (simp add: memcpy_at_def P_def)
  have a: "buf_bytes (memcpy_at buf off data) 0 (off + length data) = P @ data"
    by (rule nth_equalityI) (auto simp: buf_bytes_def buf_at_def m lp nth_append)
  have "P = buf_bytes buf 0 off"
    by (rule nth_equalityI)
       (auto simp: lp buf_bytes_def P_def buf_at_def nth_append)
  with a show ?thesis by simp
qed

text \<open>
  C6. The line buffer enters the state \<open>LINE_CRLF_SPLIT\<close> when a read for the current line,
  made in the state \<open>LINE_EMPTY\<close> or \<open>LINE_PARTIAL\<close>, succeeds and ends exactly on a CR:
  the bytes read are bytes of the line, none of them CR or LF, followed by that CR, and one
  pass of the loop stores them without the CR. From that state, when the peek at the stream
  shows at least one byte \<open>b\<close>, \<open>fetch_line\<close> returns with the line ready and the status of
  the peek, both when it is called anew and when it goes on in the call that read the CR. If
  \<open>b\<close> is LF the stream has moved on by exactly that byte, otherwise the stream is as it
  was. The content of the ready line is what the line held before, followed by the bytes
  read without their CR: neither the CR nor the peeked byte is part of it.
\<close>

theorem fetch_line_crlf_split:
  assumes ls: "lstate c0 = LINE_EMPTY \<or> lstate c0 = LINE_PARTIAL"
    and rl: "serf_bucket_readline (stream c0) = (APR_SUCCESS, SERF_NEWLINE_CRLF_SPLIT, data, s)"
    and lim: "line_used c0 + length data \<le> LINE_LIMIT"
    and pk: "serf_bucket_peek s = (status, b # bs)"
  shows "let c = c0\<lparr>stream := s, lstate := LINE_CRLF_SPLIT,
                     line := memcpy_at (line c0) (line_used c0) (butlast data),
                     line_used := line_used c0 + length (butlast data)\<rparr>;
             r = c\<lparr>stream := (if b = LF then snd (snd (serf_bucket_read s 1)) else s),
                   lstate := LINE_READY\<rparr>
         in data = butlast data @ [CR] \<and> CR \<notin> set (butlast data) \<and> LF \<notin> set (butlast data)
          \<and> bucket_bytes (stream c0) = data @ bucket_bytes s
          \<and> fetch_line_body c0 = Inr c
          \<and> fetch_line c = Some (status, r)
          \<and> fetch_line c0 = Some (status, r)
          \<and> line_content r = line_content c0 @ butlast data
          \<and> fst (snd (serf_bucket_read s 1)) = [b]
          \<and> bucket_bytes (stream r) = (if b = LF then tl (bucket_bytes s) else bucket_bytes s)"
proof -
  define c where "c = c0\<lparr>stream := s, lstate := LINE_CRLF_SPLIT,
                     line := memcpy_at (line c0) (line_used c0) (butlast data),
                     line_used := line_used c0 + length (butlast data)\<rparr>"
  define r where "r = c\<lparr>stream := (if b = LF then snd (snd (serf_bucket_read s 1)) else s),
                   lstate := LINE_READY\<rparr>"
  note d = readline_crlf_split [OF rl]
  from d have ne: "data \<noteq> []" by auto
  have bl: "take (length data - Suc 0) data = butlast data"
    by (simp add: butlast_conv_take)
  from ls have ns: "lstate c0 \<noteq> LINE_CRLF_SPLIT" by auto
  have body0: "fetch_line_body c0 = Inr c"
    using ns rl lim ne by (simp add: fetch_line_body_def c_def bl)
  have body: "fetch_line_body c = Inl (status, r)"
    using pk by (simp add: fetch_line_body_def c_def r_def)
  have loop: "fetch_line_loop c = Some (status, r)"
    by (subst fetch_line_loop.simps) (simp add: body)
  have f: "fetch_line c = Some (status, r)"
    using loop by (simp add: fetch_line_def c_def)
  have "fetch_line c0 = fetch_line_loop c0"
    using ls by (auto simp: fetch_line_def)
  also have "\<dots> = fetch_line_loop c"
    by (subst fetch_line_loop.simps) (simp add: body0)
  finally have f0: "fetch_line c0 = Some (status, r)"
    using loop by simp
  have lc: "line_content r = line_content c0 @ butlast data"
    using buf_bytes_memcpy_at [of "line c0" "line_used c0" "butlast data"]
    by (simp add: line_content_def r_def c_def)
  note one = peek_read_one [OF pk]
  have sr: "bucket_bytes (stream r) = (if b = LF then tl (bucket_bytes s) else bucket_bytes s)"
    using one by (simp add: r_def c_def)
  show ?thesis
    unfolding Let_def c_def [symmetric] r_def [symmetric]
    using d body0 f f0 lc one sr by simp
qed

theorem fetch_line_crlf_split_witness:
  "fetch_line_body (before_split_ctx (LF # ''blabla'')) = Inr (crlf_split_ctx (LF # ''blabla''))
   \<and> fetch_line (crlf_split_ctx (LF # ''blabla''))
       = Some (APR_SUCCESS, (crlf_split_ctx ''blabla'')\<lparr>lstate := LINE_READY\<rparr>)
   \<and> fetch_line (before_split_ctx (LF # ''blabla''))
       = Some (APR_SUCCESS, (crlf_split_ctx ''blabla'')\<lparr>lstate := LINE_READY\<rparr>)
   \<and> fetch_line_body (before_split_ctx ''blabla'') = Inr (crlf_split_ctx ''blabla'')
   \<and> fetch_line (crlf_split_ctx ''blabla'')
       = Some (APR_SUCCESS, (crlf_split_ctx ''blabla'')\<lparr>lstate := LINE_READY\<rparr>)
   \<and> line_content ((crlf_split_ctx ''blabla'')\<lparr>lstate := LINE_READY\<rparr>) = ''6''"
proof -
  let ?s1 = "[(LF # ''blabla'', APR_EAGAIN), (''x'', APR_EOF)]"
  let ?s2 = "[(''blabla'', APR_EAGAIN), (''x'', APR_EOF)]"
  have l: "lstate (before_split_ctx d) = LINE_EMPTY \<or> lstate (before_split_ctx d) = LINE_PARTIAL"
    for d by (simp add: before_split_ctx_def serf_bucket_response_create_def zero_mem_def)
  have r: "serf_bucket_readline (stream (before_split_ctx d))
             = (APR_SUCCESS, SERF_NEWLINE_CRLF_SPLIT, ''6'' @ [CR], [(d, APR_EAGAIN), (''x'', APR_EOF)])"
    for d by (simp add: before_split_ctx_def serf_bucket_response_create_def zero_mem_def CR_def LF_def)
  have m: "line_used (before_split_ctx d) + length (''6'' @ [CR]) \<le> LINE_LIMIT"
    for d by (simp add: before_split_ctx_def serf_bucket_response_create_def zero_mem_def
                        LINE_LIMIT_def)
  have p1: "serf_bucket_peek ?s1 = (APR_SUCCESS, LF # ''blabla'')"
    and p2: "serf_bucket_peek ?s2 = (APR_SUCCESS, CHR ''b'' # ''labla'')"
    by (simp_all add: SERF_BUCKET_READ_ERROR_def)
  have e: "line_content (before_split_ctx d) = []" 
    for d by (simp add: line_content_def buf_bytes_def before_split_ctx_def
                        serf_bucket_response_create_def zero_mem_def)
  show ?thesis
    using fetch_line_crlf_split [OF l r m p1] fetch_line_crlf_split [OF l r m p2] e
    by (simp add: Let_def before_split_ctx_def crlf_split_ctx_def serf_bucket_response_create_def
                  zero_mem_def memcpy_at_def LF_def)
qed

lemma scan_line_replicate:
  "c \<noteq> LF \<Longrightarrow> c \<noteq> CR \<Longrightarrow> scan_line (replicate n c @ LF # rest) = (SERF_NEWLINE_LF, Suc n)"
  by (induction n) simp_all

lemma readline_long_line:
  "serf_bucket_readline long_line_input
     = (APR_SUCCESS, SERF_NEWLINE_LF, replicate 8001 (CHR ''a'') @ [LF], [(''x'', APR_EOF)])"
proof -
  have "CHR ''a'' \<noteq> LF" and "CHR ''a'' \<noteq> CR"
    by (simp_all add: LF_def CR_def)
  then have "scan_line (replicate 8001 (CHR ''a'') @ LF # ''x'') = (SERF_NEWLINE_LF, 8002)"
    using scan_line_replicate [of "CHR ''a''" 8001 "''x''"] by simp
  then show ?thesis by (simp add: long_line_input_def)
qed

text \<open>
  C5. A first line of 8001 bytes (8002 with its LF) cannot be put into the line buffer.
  \<open>fetch_line\<close> gives up with \<open>APR_EGENERAL\<close>, and that is the status
  \<open>serf_bucket_response_status\<close> returns; \<open>SERF_ERROR_LINE_TOO_LONG\<close> is not produced.
\<close>

theorem fetch_line_too_long_egeneral:
  "fetch_line (serf_bucket_response_create long_line_input zero_mem)
     = Some (APR_EGENERAL, zero_mem\<lparr>stream := [(''x'', APR_EOF)]\<rparr>)
   \<and> map_option fst
        (serf_bucket_response_status (serf_bucket_response_create long_line_input zero_mem))
     = Some APR_EGENERAL"
proof -
  let ?c = "serf_bucket_response_create long_line_input zero_mem"
  let ?r = "zero_mem\<lparr>stream := [(''x'', APR_EOF)]\<rparr>"
  have st: "state ?c = STATE_STATUS_LINE" "lstate ?c = LINE_EMPTY" "line_used ?c = 0"
    "stream ?c = long_line_input" "?c\<lparr>stream := [(''x'', APR_EOF)]\<rparr> = ?r"
    by (simp_all add: serf_bucket_response_create_def zero_mem_def)
  have body: "fetch_line_body ?c = Inl (APR_EGENERAL, ?r)"
    by (simp add: fetch_line_body_def st readline_long_line LINE_LIMIT_def)
  have fl: "fetch_line ?c = Some (APR_EGENERAL, ?r)"
    unfolding fetch_line_def
    by (subst fetch_line_loop.simps) (simp add: body st)
  have rm: "run_machine ?c = Some (APR_EGENERAL, ?r)"
    by (simp add: run_machine_def fl st)
  have ws: "wait_for_sline ?c = Some (APR_EGENERAL, ?r)"
    by (subst wait_for_sline.simps) (simp add: rm st)
  show ?thesis
    by (simp add: fl serf_bucket_response_status_def ws st)
qed

subsection \<open>The body\<close>

text \<open>
  C1. On the response of \<open>test_response_body_too_small_cl\<close> (60 body bytes, declared length
  100) the first read returns the 60 bytes together with \<open>APR_EOF\<close>, and the next read
  returns \<open>APR_EOF\<close> again: \<open>SERF_ERROR_TRUNCATED_HTTP_RESPONSE\<close> is never returned.
\<close>

theorem response_body_too_small_cl_eof:
  "(case serf_response_read (serf_bucket_response_create too_small_cl_input zero_mem)
           SERF_READ_ALL_AVAIL of
      None \<Rightarrow> False
    | Some (rv, data, ctx) \<Rightarrow>
        rv = APR_EOF \<and> data = BODY60 \<and> body_left ctx = 100
        \<and> map_option (\<lambda>(rv, data, ctx). (rv, data)) (serf_response_read ctx SERF_READ_ALL_AVAIL)
            = Some (APR_EOF, []))"
  by code_simp

text \<open>
  C2. On the response of \<open>test_response_bucket_chunked_read\<close>, which carries
  \<open>Transfer-Encoding: chunked\<close> and no \<open>Content-Length\<close>, the machine reaches \<open>STATE_BODY\<close>
  with \<open>chunked\<close> and \<open>body_left\<close> exactly as the allocated memory held them. From zeroed
  memory the body is empty and at its end; from memory with \<open>body_left = 8\<close> the first eight
  raw bytes of the chunked encoding are handed out as body.
\<close>

theorem chunked_framing_not_selected:
  "map_option (\<lambda>(rv, data, ctx). (rv, data, state ctx, chunked ctx, body_left ctx))
     (serf_response_read (serf_bucket_response_create chunked_input zero_mem)
        SERF_READ_ALL_AVAIL)
   = Some (APR_EOF, [], STATE_BODY, 0, 0)
   \<and> map_option (\<lambda>(rv, data, ctx). (rv, data, state ctx, chunked ctx, body_left ctx))
     (serf_response_read
        (serf_bucket_response_create chunked_input (zero_mem\<lparr>chunked := 7, body_left := 8\<rparr>))
        SERF_READ_ALL_AVAIL)
   = Some (APR_EOF, ''3'' @ CRLF @ ''abc'' @ CRLF, STATE_BODY, 7, 0)"
  by code_simp

subsection \<open>The status line\<close>











lemma buf_bytes_take_drop:
  "off + n \<le> length l \<Longrightarrow> buf_bytes l off n = take n (drop off l)"
proof -
  assume b: "off + n \<le> length l"
  have "buf_bytes l off n = map ((!) l) [off ..< off + n]"
    unfolding buf_bytes_def using b by (intro map_cong) (simp_all add: buf_at_def)
  also have "\<dots> = take n (drop off (map ((!) l) [0 ..< length l]))"
    using b by (simp add: drop_map take_map)
  also have "\<dots> = take n (drop off l)"
    by (simp add: map_nth)
  finally show ?thesis .
qed





lemma takeWhile_tail:
  assumes "(\<exists>c\<in>set xs. \<not> P c) \<or> tail = [] \<or> \<not> P (hd tail)"
  shows "takeWhile P (xs @ tail) = takeWhile P xs"
proof (cases "\<exists>c\<in>set xs. \<not> P c")
  case True
  then obtain c where "c \<in> set xs" "\<not> P c" by blast
  then show ?thesis by (rule takeWhile_append1)
next
  case False
  with assms have t: "takeWhile P tail = []"
    by (cases tail) auto
  from False have e1: "takeWhile P (xs @ tail) = xs @ takeWhile P tail"
    by (simp add: takeWhile_append2)
  from False have e2: "takeWhile P xs = xs"
    by (simp add: takeWhile_eq_all_conv)
  show ?thesis by (simp only: e1 e2 t append_Nil2)
qed








subsection \<open>Header lines\<close>

text \<open>
  The split of a header line that lies in the buffer: without a \<open>:\<close> the parse of the line
  fails with \<open>APR_EGENERAL\<close>. With a \<open>:\<close>, if the value has a byte that is not white space,
  or the buffer byte right after the line is not white space, the name is the bytes before
  the first colon and the value is the bytes after it without their leading white space,
  possibly empty; the pair is stored in the header metadata.
\<close>

lemma parse_header_split:
  assumes used: "line_used ctx \<le> length (line ctx)"
  shows "(CHR '':'' \<notin> set (take (line_used ctx) (line ctx)) \<longrightarrow>
            parse_header ctx = Some (Inl APR_EGENERAL))
       \<and> (\<forall>name rest.
            take (line_used ctx) (line ctx) = name @ CHR '':'' # rest \<and> CHR '':'' \<notin> set name
            \<and> ((\<exists>c\<in>set rest. \<not> apr_isspace c)
                \<or> \<not> apr_isspace (buf_at (line ctx) (line_used ctx))) \<longrightarrow>
            parse_header ctx =
              Some (Inr (ctx\<lparr>metadata := (name, dropWhile apr_isspace rest) # metadata ctx\<rparr>)))"
proof (intro conjI allI impI)
  have bb: "buf_bytes (line ctx) 0 (line_used ctx) = take (line_used ctx) (line ctx)"
    using buf_bytes_take_drop [of 0 "line_used ctx" "line ctx"] used by simp
  {
    assume "CHR '':'' \<notin> set (take (line_used ctx) (line ctx))"
    then show "parse_header ctx = Some (Inl APR_EGENERAL)"
      by (simp add: parse_header_def memchr_def bb)
  }
  fix name rest
  assume a: "take (line_used ctx) (line ctx) = name @ CHR '':'' # rest \<and> CHR '':'' \<notin> set name
            \<and> ((\<exists>c\<in>set rest. \<not> apr_isspace c)
                \<or> \<not> apr_isspace (buf_at (line ctx) (line_used ctx)))"
  define tail where "tail = drop (line_used ctx) (line ctx)"
  have l: "line ctx = name @ CHR '':'' # rest @ tail"
    using a append_take_drop_id [of "line_used ctx" "line ctx"] by (simp add: tail_def)
  have lu: "line_used ctx = Suc (length name + length rest)"
    using a used by (metis length_take min.absorb2 length_append length_Cons add_Suc_right)
  have hd_tail: "tail = [] \<or> hd tail = buf_at (line ctx) (line_used ctx)"
    by (cases tail) (auto simp: buf_at_def l lu nth_append)
  have mc: "memchr (line ctx) (CHR '':'') (line_used ctx) = Some (length name)"
  proof -
    have "takeWhile (\<lambda>x. x \<noteq> CHR '':'') name = name"
      using a by (auto simp: takeWhile_eq_all_conv)
    then show ?thesis
      using a by (simp add: memchr_def bb takeWhile_tail)
  qed
  have tw: "takeWhile apr_isspace (rest @ tail) = takeWhile apr_isspace rest"
    using takeWhile_tail [where P = apr_isspace and xs = rest and tail = tail] a hd_tail by auto
  define c where "c = Suc (length name + length (takeWhile apr_isspace rest))"
  have sk: "skip_space (line ctx) (Suc (length name)) = c"
    by (simp add: skip_space_def l tw c_def)
  have le: "length (takeWhile apr_isspace rest) \<le> length rest"
    by (rule length_takeWhile_le)
  have cle: "c \<le> line_used ctx"
    using le lu by (simp add: c_def)
  have k: "buf_bytes (line ctx) 0 (length name) = name"
    using buf_bytes_take_drop [of 0 "length name" "line ctx"] by (simp add: l)
  have v: "buf_bytes (line ctx) c (line_used ctx - c) = dropWhile apr_isspace rest"
  proof -
    have "buf_bytes (line ctx) c (line_used ctx - c)
          = take (length rest - length (takeWhile apr_isspace rest)) (drop c (line ctx))"
      using le by (subst buf_bytes_take_drop) (simp_all add: l lu c_def)
    also have "\<dots> = take (length rest - length (takeWhile apr_isspace rest))
              (drop (length (takeWhile apr_isspace rest)) rest @ tail)"
      using le by (simp add: l c_def)
    also have "\<dots> = drop (length (takeWhile apr_isspace rest)) rest"
      by simp
    also have "\<dots> = dropWhile apr_isspace rest"
      by (simp add: dropWhile_eq_drop)
    finally show ?thesis .
  qed
  show "parse_header ctx =
          Some (Inr (ctx\<lparr>metadata := (name, dropWhile apr_isspace rest) # metadata ctx\<rparr>))"
    using cle by (simp add: parse_header_def mc sk k v Let_def)
qed

lemma parse_header_split_examples:
  "parse_header (header_ctx ''Content-Length: 7'' 17)
     = Some (Inr ((header_ctx ''Content-Length: 7'' 17)\<lparr>metadata := [(''Content-Length'', ''7'')]\<rparr>))
   \<and> parse_header (header_ctx ''NoSpace:t-Length: 7'' 8)
     = Some (Inr ((header_ctx ''NoSpace:t-Length: 7'' 8)\<lparr>metadata := [(''NoSpace'', [])]\<rparr>))
   \<and> parse_header (header_ctx ''Content-Length 7'' 16) = Some (Inl APR_EGENERAL)"
  by code_simp

text \<open>A response whose header line has no colon is refused with \<open>APR_EGENERAL\<close>;
  \<open>SERF_ERROR_BAD_HEADER\<close> is not produced.\<close>

lemma header_without_colon_egeneral:
  "(case serf_response_read (serf_bucket_response_create no_colon_input zero_mem)
           SERF_READ_ALL_AVAIL of
      None \<Rightarrow> False
    | Some (rv, data, ctx) \<Rightarrow> rv = APR_EGENERAL \<and> rv \<noteq> SERF_ERROR_BAD_HEADER)"
  by code_simp

text \<open>
  C7. On the response of \<open>test_response_bucket_headers\<close> the machine reaches the line
  \<open>Allow: \<close> with the buffer as \<open>allow_line_ctx\<close> has it: the seven bytes of the line,
  then bytes the lines \<open>Server: Apache\<close> and \<open>Date: ...\<close> left there, the first of them a
  space. The colon is at offset 5, and the white-space skip after it, which is not bounded
  by \<open>line_used\<close>, ends at offset 8, beyond the line's end at 7. The length handed to
  \<open>serf_bstrmemdup\<close> for the value is then negative: the parse of the line, and with it
  the read of the response, has no result, where the test expects the header \<open>Allow\<close> with
  an empty value. With nothing but the line in the buffer the value is empty, as the test
  expects.
\<close>

theorem headers_test_value_overrun:
  "(case wait_for_sline (serf_bucket_response_create headers_test_input zero_mem) of
      None \<Rightarrow> None
    | Some (status, ctx1) \<Rightarrow> Option.bind (read_header_lines 2 ctx1) fetch_line)
     = Some (APR_SUCCESS, allow_line_ctx)
   \<and> take (line_used allow_line_ctx) (line allow_line_ctx) = ''Allow: ''
   \<and> memchr (line allow_line_ctx) (CHR '':'') (line_used allow_line_ctx) = Some 5
   \<and> skip_space (line allow_line_ctx) 6 = 8
   \<and> line_used allow_line_ctx = 7
   \<and> parse_header allow_line_ctx = None
   \<and> serf_response_read (serf_bucket_response_create headers_test_input zero_mem)
        SERF_READ_ALL_AVAIL = None
   \<and> parse_header (allow_line_ctx\<lparr>line := ''Allow: ''\<rparr>)
        = Some (Inr (allow_line_ctx\<lparr>line := ''Allow: '',
                       metadata := (''Allow'', []) # metadata allow_line_ctx\<rparr>))"
  by code_simp

subsection \<open>The SSL bucket pair\<close>

lemma store_deref_databuf: "store_databuf c f (deref_databuf c f) = c"
  by (cases f) (simp_all add: store_databuf_def deref_databuf_def)

lemma store_databuf_fields:
  "fatal_err (store_databuf c f db) = fatal_err c"
  "decrypt_stream (store_databuf c f db) = decrypt_stream c"
  by (cases f; simp add: store_databuf_def)+

lemma databuf_read_latched:
  "fatal_err c \<noteq> APR_SUCCESS \<Longrightarrow> databuf_read f c n script = Some (fatal_err c, [], c)"
  by (cases f) (simp_all add: databuf_read_def ssl_encrypt_def ssl_decrypt_def)

lemma serf_databuf_read_buffered:
  assumes "\<not> databuf_drained (deref_databuf c f)"
  shows "serf_databuf_read f bufsize requested script c = Some (served_from_databuf f requested c)"
proof (cases "db_current (deref_databuf c f) = []")
  case True
  with assms have e: "db_status (deref_databuf c f) = APR_EOF"
    by (simp add: databuf_drained_def)
  have eq: "(deref_databuf c f)\<lparr>db_current := []\<rparr> = deref_databuf c f"
    using True by (cases "deref_databuf c f") simp
  show ?thesis
    by (simp add: serf_databuf_read_def common_databuf_prep_def served_from_databuf_def
                  True e eq store_deref_databuf)
next
  case False
  then show ?thesis
    by (simp add: serf_databuf_read_def common_databuf_prep_def served_from_databuf_def Let_def)
qed

lemma serf_databuf_read_latched:
  assumes "SERF_BUCKET_READ_ERROR (fatal_err c)" and "databuf_drained (deref_databuf c f)"
  shows "serf_databuf_read f bufsize requested script c = Some (fatal_err c, [], c)"
proof -
  from assms(1) have ne: "fatal_err c \<noteq> APR_SUCCESS"
    by (auto simp: SERF_BUCKET_READ_ERROR_def)
  from databuf_read_latched [OF ne, of f bufsize script] assms ne show ?thesis
    by (simp add: serf_databuf_read_def common_databuf_prep_def databuf_drained_def)
qed

lemma served_from_databuf_fields:
  "fatal_err (snd (snd (served_from_databuf f requested c))) = fatal_err c"
  "decrypt_stream (snd (snd (served_from_databuf f requested c))) = decrypt_stream c"
  by (simp_all add: served_from_databuf_def Let_def store_databuf_fields)

lemma serf_ssl_read_fatal_err:
  assumes f: "SERF_BUCKET_READ_ERROR (fatal_err c)"
    and r: "serf_ssl_read bkt bufsize requested script c = Some (st, d, c1)"
  shows "fatal_err c1 = fatal_err c"
proof (cases "databuf_drained (deref_databuf c (databuf bkt))")
  case True
  from serf_databuf_read_latched [OF f True, of bufsize requested script] r show ?thesis
    by (simp add: serf_ssl_read_def)
next
  case False
  from serf_databuf_read_buffered [OF False, of bufsize requested script] r
    served_from_databuf_fields(1) [of "databuf bkt" requested c]
  show ?thesis by (auto simp: serf_ssl_read_def)
qed

lemma ssl_apply_latched:
  assumes f: "SERF_BUCKET_READ_ERROR (fatal_err c)" and a: "ssl_apply op c = (r, Some c1)"
  shows "fatal_err c1 = fatal_err c"
proof (cases op)
  case (BUCKET_READ bkt bufsize requested script)
  with a obtain st d where "serf_ssl_read bkt bufsize requested script c = Some (st, d, c1)"
    by (auto simp: ssl_apply_def split: option.splits)
  from serf_ssl_read_fatal_err [OF f this] show ?thesis .
next
  case (ENCRYPT_CREATE s)
  with a show ?thesis
    by (auto simp: ssl_apply_def serf_bucket_ssl_encrypt_create_def serf_bucket_ssl_create_def
                   Let_def)
next
  case (DECRYPT_CREATE s)
  with a show ?thesis
    by (auto simp: ssl_apply_def serf_bucket_ssl_decrypt_create_def serf_bucket_ssl_create_def
                   Let_def)
next
  case (ENCRYPT_DESTROY b)
  with a show ?thesis
    by (auto simp: ssl_apply_def serf_ssl_encrypt_destroy_and_data_def
                   serf_ssl_destroy_and_data_def Let_def split: if_splits list.splits)
next
  case (DECRYPT_DESTROY b)
  with a show ?thesis
    by (auto simp: ssl_apply_def serf_ssl_decrypt_destroy_and_data_def
                   serf_ssl_destroy_and_data_def Let_def split: if_splits)
next
  case (SET_CONFIG cfg)
  with a show ?thesis
    by (auto simp: ssl_apply_def serf_ssl_set_config_def split: prod.splits if_splits)
qed

lemma ssl_run_latched:
  "SERF_BUCKET_READ_ERROR (fatal_err c) \<Longrightarrow> snd (ssl_run ops c) = Some c' \<Longrightarrow>
     fatal_err c' = fatal_err c"
proof (induction ops arbitrary: c)
  case Nil
  then show ?case by simp
next
  case (Cons op ops)
  obtain r oc where a: "ssl_apply op c = (r, oc)" by (cases "ssl_apply op c")
  show ?case
  proof (cases oc)
    case None
    with a Cons.prems show ?thesis by simp
  next
    case (Some c1)
    from ssl_apply_latched [OF Cons.prems(1) a [unfolded Some]]
    have f1: "fatal_err c1 = fatal_err c" .
    from a Some Cons.prems(2) have "snd (ssl_run ops c1) = Some c'"
      by (simp split: prod.splits)
    from Cons.IH [OF _ this] f1 Cons.prems(1) show ?thesis by simp
  qed
qed

lemma ssl_apply_drained:
  assumes f: "SERF_BUCKET_READ_ERROR (fatal_err c)"
    and d: "databuf_drained (encrypt_databuf c)" "databuf_drained (decrypt_databuf c)"
    and a: "ssl_apply op c = (r, oc)"
  shows "(r = None \<or> r = Some (fatal_err c))
       \<and> (\<forall>c1. oc = Some c1 \<longrightarrow>
            databuf_drained (encrypt_databuf c1) \<and> databuf_drained (decrypt_databuf c1))"
proof (cases op)
  case (BUCKET_READ bkt bufsize requested script)
  from d have "databuf_drained (deref_databuf c (databuf bkt))"
    by (cases "databuf bkt") (simp_all add: deref_databuf_def)
  from serf_databuf_read_latched [OF f this, of bufsize requested script] a BUCKET_READ d
  show ?thesis by (auto simp: ssl_apply_def serf_ssl_read_def)
next
  case (ENCRYPT_CREATE s)
  with a d show ?thesis
    by (auto simp: ssl_apply_def serf_bucket_ssl_encrypt_create_def serf_bucket_ssl_create_def
                   Let_def)
next
  case (DECRYPT_CREATE s)
  with a d show ?thesis
    by (auto simp: ssl_apply_def serf_bucket_ssl_decrypt_create_def serf_bucket_ssl_create_def
                   Let_def)
next
  case (ENCRYPT_DESTROY b)
  with a d show ?thesis
    by (auto simp: ssl_apply_def serf_ssl_encrypt_destroy_and_data_def databuf_drained_def
                   serf_ssl_destroy_and_data_def Let_def split: if_splits list.splits)
next
  case (DECRYPT_DESTROY b)
  with a d show ?thesis
    by (auto simp: ssl_apply_def serf_ssl_decrypt_destroy_and_data_def
                   serf_ssl_destroy_and_data_def Let_def split: if_splits)
next
  case (SET_CONFIG cfg)
  with a d show ?thesis
    by (auto simp: ssl_apply_def serf_ssl_set_config_def split: prod.splits if_splits)
qed

lemma ssl_run_drained:
  "SERF_BUCKET_READ_ERROR (fatal_err c) \<Longrightarrow> databuf_drained (encrypt_databuf c) \<Longrightarrow>
   databuf_drained (decrypt_databuf c) \<Longrightarrow> st \<in> set (fst (ssl_run ops c)) \<Longrightarrow> st = fatal_err c"
proof (induction ops arbitrary: c)
  case Nil
  then show ?case by simp
next
  case (Cons op ops)
  obtain r oc where a: "ssl_apply op c = (r, oc)" by (cases "ssl_apply op c")
  note step = ssl_apply_drained [OF Cons.prems(1,2,3) a]
  show ?case
  proof (cases oc)
    case None
    with a step Cons.prems(4) show ?thesis by (auto split: option.splits)
  next
    case (Some c1)
    from ssl_apply_latched [OF Cons.prems(1) a [unfolded Some]]
    have f1: "fatal_err c1 = fatal_err c" .
    with Cons.prems(1) have e1: "SERF_BUCKET_READ_ERROR (fatal_err c1)" by simp
    from step Some have d1: "databuf_drained (encrypt_databuf c1)"
      "databuf_drained (decrypt_databuf c1)" by simp_all
    from Cons.prems(4) a Some have "st \<in> set (case r of None \<Rightarrow> [] | Some s \<Rightarrow> [s])
        \<or> st \<in> set (fst (ssl_run ops c1))"
      by (auto split: prod.splits)
    then show ?thesis
    proof
      assume "st \<in> set (case r of None \<Rightarrow> [] | Some s \<Rightarrow> [s])"
      with step show ?thesis by (auto split: option.splits)
    next
      assume "st \<in> set (fst (ssl_run ops c1))"
      from Cons.IH [OF e1 d1 this] f1 show ?thesis by simp
    qed
  qed
qed

text \<open>
  C4 (as amended). Once \<open>fatal_err\<close> holds an error, \<open>ssl_encrypt\<close> and \<open>ssl_decrypt\<close>
  return exactly that error, with no bytes and the context unchanged, whatever the engine
  would do, and no sequence of operations on the pair changes \<open>fatal_err\<close> as long as the
  context exists. A read through a bucket of the pair returns the latched error when the
  databuf of that bucket is drained (no buffered bytes, no remembered end of data);
  otherwise the read is served from the databuf alone: it hands out buffered bytes, or
  \<open>APR_EOF\<close> again, and does not reach the reader. When both databufs are drained, every
  read in any sequence of operations on the pair returns the latched error.
\<close>

theorem fatal_err_latched:
  assumes "SERF_BUCKET_READ_ERROR (fatal_err c)"
  shows "ssl_encrypt c n script = Some (fatal_err c, [], c)
       \<and> ssl_decrypt c n script = Some (fatal_err c, [], c)
       \<and> (\<forall>c'. snd (ssl_run ops c) = Some c' \<longrightarrow> fatal_err c' = fatal_err c)
       \<and> (databuf_drained (deref_databuf c (databuf bkt)) \<longrightarrow>
            serf_ssl_read bkt bufsize requested script c = Some (fatal_err c, [], c))
       \<and> (\<not> databuf_drained (deref_databuf c (databuf bkt)) \<longrightarrow>
            serf_ssl_read bkt bufsize requested script c
              = Some (served_from_databuf (databuf bkt) requested c))
       \<and> (databuf_drained (encrypt_databuf c) \<and> databuf_drained (decrypt_databuf c) \<longrightarrow>
            (\<forall>st\<in>set (fst (ssl_run ops c)). st = fatal_err c))"
proof -
  from assms have ne: "fatal_err c \<noteq> APR_SUCCESS"
    by (auto simp: SERF_BUCKET_READ_ERROR_def)
  have r: "ssl_encrypt c n script = Some (fatal_err c, [], c)"
    "ssl_decrypt c n script = Some (fatal_err c, [], c)"
    using ne by (simp_all add: ssl_encrypt_def ssl_decrypt_def)
  show ?thesis
    using r ssl_run_latched [OF assms, of ops] ssl_run_drained [OF assms, of _ ops]
      serf_databuf_read_latched [OF assms, of "databuf bkt" bufsize requested script]
      serf_databuf_read_buffered [of c "databuf bkt" bufsize requested script]
    by (auto simp: serf_ssl_read_def)
qed

theorem fatal_err_latched_witness:
  "ssl_decrypt pair_ctx3 8000 [ssl_failure] = Some (SERF_ERROR_SSL_COMM_FAILED, [], failed_ctx)
   \<and> SERF_BUCKET_READ_ERROR (fatal_err failed_ctx)
   \<and> ssl_encrypt failed_ctx 8000 [ssl_write_ok 5] = Some (SERF_ERROR_SSL_COMM_FAILED, [], failed_ctx)
   \<and> ssl_decrypt failed_ctx 8000 [ssl_write_ok 5] = Some (SERF_ERROR_SSL_COMM_FAILED, [], failed_ctx)
   \<and> databuf_drained (encrypt_databuf failed_ctx) \<and> databuf_drained (decrypt_databuf failed_ctx)
   \<and> serf_ssl_read decrypt_bucket 8000 10 [ssl_write_ok 5] failed_ctx
        = Some (SERF_ERROR_SSL_COMM_FAILED, [], failed_ctx)
   \<and> fst (ssl_run latched_ops failed_ctx)
       = [SERF_ERROR_SSL_COMM_FAILED, SERF_ERROR_SSL_COMM_FAILED, SERF_ERROR_SSL_COMM_FAILED]
   \<and> map_option fatal_err (snd (ssl_run latched_ops failed_ctx)) = Some SERF_ERROR_SSL_COMM_FAILED
   \<and> ssl_run buffered_latch_ops pair_ctx3
        = ([APR_SUCCESS, SERF_ERROR_SSL_COMM_FAILED], Some buffered_latched_ctx)
   \<and> SERF_BUCKET_READ_ERROR (fatal_err buffered_latched_ctx)
   \<and> \<not> databuf_drained (decrypt_databuf buffered_latched_ctx)
   \<and> serf_ssl_read decrypt_bucket 8000 2 [] buffered_latched_ctx
        = Some (APR_SUCCESS, ''ll'',
                buffered_latched_ctx\<lparr>decrypt_databuf := \<lparr>db_current = ''o'', db_status = APR_EAGAIN\<rparr>\<rparr>)"
proof -
  have f: "SERF_BUCKET_READ_ERROR (fatal_err failed_ctx)"
    "fatal_err failed_ctx = SERF_ERROR_SSL_COMM_FAILED"
    by (simp_all add: failed_ctx_def SERF_BUCKET_READ_ERROR_def)
  have g: "SERF_BUCKET_READ_ERROR (fatal_err buffered_latched_ctx)"
    by (simp add: buffered_latched_ctx_def SERF_BUCKET_READ_ERROR_def)
  have d: "ssl_decrypt pair_ctx3 8000 [ssl_failure] = Some (SERF_ERROR_SSL_COMM_FAILED, [], failed_ctx)"
    by code_simp
  have dr: "databuf_drained (encrypt_databuf failed_ctx)" "databuf_drained (decrypt_databuf failed_ctx)"
    "databuf_drained (deref_databuf failed_ctx (databuf decrypt_bucket))"
    by code_simp+
  have nd: "\<not> databuf_drained (decrypt_databuf buffered_latched_ctx)"
    "\<not> databuf_drained (deref_databuf buffered_latched_ctx (databuf decrypt_bucket))"
    by code_simp+
  have r: "fst (ssl_run latched_ops failed_ctx)
       = [SERF_ERROR_SSL_COMM_FAILED, SERF_ERROR_SSL_COMM_FAILED, SERF_ERROR_SSL_COMM_FAILED]"
    by code_simp
  have s: "snd (ssl_run latched_ops failed_ctx) \<noteq> None"
    by code_simp
  have b: "ssl_run buffered_latch_ops pair_ctx3
        = ([APR_SUCCESS, SERF_ERROR_SSL_COMM_FAILED], Some buffered_latched_ctx)"
    by code_simp
  have sv: "served_from_databuf (databuf decrypt_bucket) 2 buffered_latched_ctx
        = (APR_SUCCESS, ''ll'',
           buffered_latched_ctx\<lparr>decrypt_databuf := \<lparr>db_current = ''o'', db_status = APR_EAGAIN\<rparr>\<rparr>)"
    by code_simp
  show ?thesis
    using fatal_err_latched [OF f(1), of 8000 "[ssl_write_ok 5]" latched_ops decrypt_bucket 8000 10]
      fatal_err_latched [OF g, of 8000 "[]" "[]" decrypt_bucket 8000 2]
      f d dr nd r s b g sv
    by auto
qed

text \<open>
  C4 as stated fails. After a read of two bytes through the decrypt bucket for which the
  engine delivered \<open>hello\<close>, a failing \<open>SSL_write\<close> during a read through the encrypt
  bucket latches \<open>SERF_ERROR_SSL_COMM_FAILED\<close>; the next read through the decrypt bucket
  returns the three buffered bytes \<open>llo\<close> with \<open>APR_EAGAIN\<close>, not the latched error. When
  the decrypt bucket has seen the end of its data before the error is latched, every later
  read through it returns \<open>APR_EOF\<close>.
\<close>

theorem fatal_err_read_served_from_databuf:
  "ssl_run buffered_latch_ops pair_ctx3
     = ([APR_SUCCESS, SERF_ERROR_SSL_COMM_FAILED], Some buffered_latched_ctx)
   \<and> fatal_err buffered_latched_ctx = SERF_ERROR_SSL_COMM_FAILED
   \<and> serf_ssl_read decrypt_bucket 8000 10 [] buffered_latched_ctx
        = Some (APR_EAGAIN, ''llo'',
                buffered_latched_ctx\<lparr>decrypt_databuf := \<lparr>db_current = [], db_status = APR_EAGAIN\<rparr>\<rparr>)
   \<and> fst (ssl_run (eof_latch_ops @ [BUCKET_READ decrypt_bucket 8000 10 [],
                                    BUCKET_READ decrypt_bucket 8000 10 []]) pair_ctx3)
        = [APR_EOF, SERF_ERROR_SSL_COMM_FAILED, APR_EOF, APR_EOF]
   \<and> map_option fatal_err (snd (ssl_run eof_latch_ops pair_ctx3))
        = Some SERF_ERROR_SSL_COMM_FAILED"
  by code_simp

lemma aggregate_read_iovec_bytes:
  "aggregate_read_iovec p n k = (st, vs, r) \<Longrightarrow>
     concat p = concat vs @ concat r \<and> length (concat vs) \<le> n
     \<and> (st = APR_SUCCESS \<or> st = APR_EOF)"
proof (induction p n k arbitrary: st vs r rule: aggregate_read_iovec.induct)
  case (1 n k)
  then show ?case by simp
next
  case (2 d rest n k)
  show ?case
  proof (cases "d = []")
    case True
    with 2 show ?thesis by simp
  next
    case d: False
    show ?thesis
    proof (cases "k = 0 \<or> n = 0")
      case True
      with d "2.prems" show ?thesis by auto
    next
      case kn: False
      show ?thesis
      proof (cases "n < length d")
        case True
        with d kn "2.prems" show ?thesis by auto
      next
        case False
        obtain st' vs' r' where rec: "aggregate_read_iovec rest (n - length d) (k - 1) = (st', vs', r')"
          by (cases "aggregate_read_iovec rest (n - length d) (k - 1)")
        from "2.IH"(2) [OF d kn False rec] d kn False rec "2.prems"
        show ?thesis by auto
      qed
    qed
  qed
qed

lemma aggregate_read_iovec_nonempty:
  "aggregate_read_iovec p n k = (st, vs, r) \<Longrightarrow> concat p \<noteq> [] \<Longrightarrow> 0 < n \<Longrightarrow> 0 < k \<Longrightarrow>
     concat vs \<noteq> []"
proof (induction p n k arbitrary: st vs r rule: aggregate_read_iovec.induct)
  case (1 n k)
  then show ?case by simp
next
  case (2 d rest n k)
  show ?case
  proof (cases "d = []")
    case True
    with 2 show ?thesis by simp
  next
    case False
    with "2.prems" show ?thesis
      by (auto split: if_splits prod.splits)
  qed
qed

lemma aggregate_read_bytes:
  assumes "aggregate_read p n = (st, data, p1)" and "concat p \<noteq> []" and "0 < n"
  shows "concat p = data @ concat p1 \<and> length data \<le> n \<and> data \<noteq> []
         \<and> (st = APR_SUCCESS \<or> st = APR_EOF)"
proof -
  obtain vs where v: "aggregate_read_iovec p n 1 = (st, vs, p1)" and d: "data = concat vs"
    using assms(1) by (auto simp: aggregate_read_def split: prod.splits)
  from aggregate_read_iovec_bytes [OF v] aggregate_read_iovec_nonempty [OF v assms(2,3)] d
  show ?thesis by simp
qed

text \<open>
  C8 (as amended). When no fatal error is latched, the buffer size is not zero and
  \<open>encrypt_pending\<close> holds at least one byte, \<open>ssl_encrypt\<close> returns \<open>APR_SUCCESS\<close> with the
  bytes a read of the aggregate gives: a non-empty prefix of the pending bytes, at most
  \<open>bufsize\<close> long. The context changes only in \<open>encrypt_pending\<close>, which keeps the rest: the
  plaintext stream is not read and no hook of the engine runs, whatever engine calls are on
  offer.
\<close>

theorem ssl_encrypt_pending_first:
  assumes "fatal_err c = APR_SUCCESS" and "encrypt_pending c = Some p"
    and "concat p \<noteq> []" and "0 < bufsize"
    and "aggregate_read p bufsize = (st, data, p1)"
  shows "ssl_encrypt c bufsize script = Some (APR_SUCCESS, data, c\<lparr>encrypt_pending := Some p1\<rparr>)
       \<and> data \<noteq> [] \<and> length data \<le> bufsize \<and> concat p = data @ concat p1"
proof -
  note b = aggregate_read_bytes [OF assms(5,3,4)]
  then have "\<not> SERF_BUCKET_READ_ERROR st"
    by (auto simp: SERF_BUCKET_READ_ERROR_def)
  with b assms(1,2,5) show ?thesis
    by (auto simp: ssl_encrypt_def)
qed

theorem ssl_encrypt_pending_first_witness:
  "ssl_encrypt pair_ctx3 2 [ssl_write_ok 2] = Some (APR_SUCCESS, ''XX'', pending_ctx)
   \<and> fatal_err pending_ctx = APR_SUCCESS \<and> encrypt_pending pending_ctx = Some [''XXX'']
   \<and> aggregate_read [''XXX''] 2 = (APR_SUCCESS, ''XX'', [''X''])
   \<and> ssl_encrypt pending_ctx 2 [] = Some (APR_SUCCESS, ''XX'', pending_ctx\<lparr>encrypt_pending := Some [''X'']\<rparr>)
   \<and> ssl_encrypt pending_ctx 2 [ssl_write_ok 2]
        = Some (APR_SUCCESS, ''XX'', pending_ctx\<lparr>encrypt_pending := Some [''X'']\<rparr>)"
proof -
  have r: "ssl_encrypt pair_ctx3 2 [ssl_write_ok 2] = Some (APR_SUCCESS, ''XX'', pending_ctx)"
    by code_simp
  have f: "fatal_err pending_ctx = APR_SUCCESS" and p: "encrypt_pending pending_ctx = Some [''XXX'']"
    by (simp_all add: pending_ctx_def pair_ctx3_def pair_ctx2_def pair_ctx1_def
          serf_bucket_ssl_encrypt_create_def serf_bucket_ssl_decrypt_create_def
          serf_bucket_ssl_create_def ssl_init_context_def Let_def)
  have n: "concat [''XXX''] \<noteq> []" "0 < (2::nat)" by simp_all
  have a: "aggregate_read [''XXX''] 2 = (APR_SUCCESS, ''XX'', [''X''])"
    by (simp add: aggregate_read_def)
  show ?thesis
    using ssl_encrypt_pending_first [OF f p n a, of "[]"]
      ssl_encrypt_pending_first [OF f p n a, of "[ssl_write_ok 2]"] r f p a
    by simp
qed

text \<open>
  C8 as stated fails: with \<open>fatal_err\<close> latched, \<open>ssl_encrypt\<close> returns that error and no byte
  although \<open>encrypt_pending\<close> holds ciphertext.
\<close>

theorem ssl_encrypt_pending_after_fatal:
  "ssl_encrypt (pending_ctx\<lparr>fatal_err := SERF_ERROR_SSL_COMM_FAILED\<rparr>) 8000 []
     = Some (SERF_ERROR_SSL_COMM_FAILED, [],
             pending_ctx\<lparr>fatal_err := SERF_ERROR_SSL_COMM_FAILED\<rparr>)
   \<and> encrypt_pending (pending_ctx\<lparr>fatal_err := SERF_ERROR_SSL_COMM_FAILED\<rparr>) = Some [''XXX'']"
  by (simp add: ssl_encrypt_def pending_ctx_def)

lemma run_hook_decrypt_stream:
  "run_hook c h = Some c1 \<Longrightarrow> decrypt_stream c \<noteq> None \<Longrightarrow> decrypt_stream c1 \<noteq> None"
  by (cases h)
     (auto simp: run_hook_def bio_bucket_read_def bio_bucket_write_def detect_renegotiate_def
           split: if_splits option.splits prod.splits)

lemma run_hooks_decrypt_stream:
  "run_hooks c hs = Some c1 \<Longrightarrow> decrypt_stream c \<noteq> None \<Longrightarrow> decrypt_stream c1 \<noteq> None"
proof (induction hs arbitrary: c)
  case Nil
  then show ?case by simp
next
  case (Cons h hs)
  then obtain c' where h: "run_hook c h = Some c'" and r: "run_hooks c' hs = Some c1"
    by (auto split: option.splits)
  from run_hook_decrypt_stream [OF h Cons.prems(2)] Cons.IH [OF r] show ?case by simp
qed

lemma ssl_decrypt_decrypt_stream:
  assumes "ssl_decrypt c n script = Some (st, d, c1)" and "decrypt_stream c \<noteq> None"
  shows "decrypt_stream c1 \<noteq> None"
proof (cases "fatal_err c \<noteq> APR_SUCCESS")
  case True
  with assms show ?thesis by (simp add: ssl_decrypt_def)
next
  case False
  with assms(1) obtain ec script1 c' where
    sc: "script = ec # script1"
    and h: "run_hooks (c\<lparr>want_read := False, crypt_status := APR_SUCCESS\<rparr>) (hooks ec) = Some c'"
    and k: "decrypt_stream c1 = decrypt_stream c'"
    by (auto simp: ssl_decrypt_def Let_def
             split: list.splits option.splits if_splits ssl_error.splits)
  from run_hooks_decrypt_stream [OF h] assms(2) k show ?thesis by simp
qed

lemma ssl_encrypt_body_decrypt_stream:
  assumes "ssl_encrypt_body script n c = Some (st, script1, n1, c1)" and "decrypt_stream c \<noteq> None"
  shows "decrypt_stream c1 \<noteq> None"
proof (cases "want_read c")
  case True
  with assms show ?thesis by (simp add: ssl_encrypt_body_def)
next
  case False
  with assms(1) obtain s where s: "encrypt_stream c = Some s"
    by (auto simp: ssl_encrypt_body_def split: option.splits)
  obtain status vecs s1 where rd: "stream_read_iovec s n = (status, vecs, s1)"
    by (cases "stream_read_iovec s n")
  show ?thesis
  proof (cases "\<not> SERF_BUCKET_READ_ERROR status \<and> vecs \<noteq> []")
    case no: False
    with assms False s rd show ?thesis
      by (auto simp: ssl_encrypt_body_def Let_def)
  next
    case True
    with assms(1) False s rd obtain ec script' c2 where
      sc: "script = ec # script'"
      and h: "run_hooks (c\<lparr>encrypt_stream := Some s1, crypt_status := APR_SUCCESS\<rparr>) (hooks ec) = Some c2"
      by (auto simp: ssl_encrypt_body_def Let_def split: list.splits option.splits)
    from run_hooks_decrypt_stream [OF h] assms(2) have d2: "decrypt_stream c2 \<noteq> None" by simp
    from assms(1) False s rd True sc h have "decrypt_stream c1 = decrypt_stream c2"
      by (auto simp: ssl_encrypt_body_def Let_def
               split: if_splits option.splits ssl_error.splits)
    with d2 show ?thesis by simp
  qed
qed

lemma ssl_encrypt_loop_decrypt_stream:
  assumes "ssl_encrypt_loop script n c = Some r"
  shows "decrypt_stream c \<noteq> None \<longrightarrow> decrypt_stream (snd r) \<noteq> None"
proof (rule ssl_encrypt_loop.raw_induct
         [where P = "\<lambda>script n c r. decrypt_stream c \<noteq> None \<longrightarrow> decrypt_stream (snd r) \<noteq> None",
          OF _ assms])
  fix loop :: "engine_call list \<Rightarrow> nat \<Rightarrow> serf_ssl_context_t
                 \<Rightarrow> (apr_status \<times> serf_ssl_context_t) option"
  fix script n c r
  assume IH: "\<And>script n c r. loop script n c = Some r \<Longrightarrow>
                 decrypt_stream c \<noteq> None \<longrightarrow> decrypt_stream (snd r) \<noteq> None"
    and step: "(case ssl_encrypt_body script n c of
                  None \<Rightarrow> None
                | Some (status, script1, interim1, ctx1) \<Rightarrow>
                    if status = APR_SUCCESS \<and> interim1 \<noteq> 0
                    then loop script1 interim1 ctx1 else Some (status, ctx1)) = Some r"
  show "decrypt_stream c \<noteq> None \<longrightarrow> decrypt_stream (snd r) \<noteq> None"
  proof
    assume d: "decrypt_stream c \<noteq> None"
    from step obtain status script1 n1 c1 where
      b: "ssl_encrypt_body script n c = Some (status, script1, n1, c1)"
      by (auto split: option.splits)
    note d1 = ssl_encrypt_body_decrypt_stream [OF b d]
    show "decrypt_stream (snd r) \<noteq> None"
    proof (cases "status = APR_SUCCESS \<and> n1 \<noteq> 0")
      case True
      with step b have "loop script1 n1 c1 = Some r" by simp
      from IH [OF this] d1 show ?thesis by simp
    next
      case False
      with step b d1 show ?thesis by auto
    qed
  qed
qed

lemma ssl_encrypt_decrypt_stream:
  assumes "ssl_encrypt c n script = Some (st, d, c1)" and "decrypt_stream c \<noteq> None"
  shows "decrypt_stream c1 \<noteq> None"
proof (cases "fatal_err c \<noteq> APR_SUCCESS")
  case True
  with assms show ?thesis by (simp add: ssl_encrypt_def)
next
  case False
  with assms(1) obtain p where p: "encrypt_pending c = Some p"
    by (auto simp: ssl_encrypt_def split: option.splits)
  obtain status data p1 where a: "aggregate_read p n = (status, data, p1)"
    by (cases "aggregate_read p n")
  show ?thesis
  proof (cases "SERF_BUCKET_READ_ERROR status \<or> length data \<noteq> 0")
    case True
    with assms False p a show ?thesis
      by (auto simp: ssl_encrypt_def Let_def split: if_splits)
  next
    case no: False
    with assms(1) False p a obtain status1 c2 where
      l: "ssl_encrypt_loop script n (c\<lparr>encrypt_pending := Some p1\<rparr>) = Some (status1, c2)"
      by (auto simp: ssl_encrypt_def Let_def split: option.splits)
    from ssl_encrypt_loop_decrypt_stream [OF l] assms(2) have d2: "decrypt_stream c2 \<noteq> None"
      by simp
    from assms(1) False p a no l have "decrypt_stream c1 = decrypt_stream c2"
      by (auto simp: ssl_encrypt_def Let_def split: if_splits option.splits prod.splits)
    with d2 show ?thesis by simp
  qed
qed

lemma serf_ssl_read_decrypt_stream:
  assumes r: "serf_ssl_read bkt bufsize requested script c = Some (st, d, c1)"
    and ds: "decrypt_stream c \<noteq> None"
  shows "decrypt_stream c1 \<noteq> None"
proof (cases "databuf_drained (deref_databuf c (databuf bkt))")
  case False
  from serf_databuf_read_buffered [OF False, of bufsize requested script] r ds
    served_from_databuf_fields(2) [of "databuf bkt" requested c]
  show ?thesis by (auto simp: serf_ssl_read_def)
next
  case True
  with r obtain status data c2 where
    rd: "databuf_read (databuf bkt) c bufsize script = Some (status, data, c2)"
    and k: "decrypt_stream c1 = decrypt_stream c2"
    by (auto simp: serf_ssl_read_def serf_databuf_read_def common_databuf_prep_def
                   databuf_drained_def Let_def store_databuf_fields
             split: option.splits if_splits)
  from rd ds have "decrypt_stream c2 \<noteq> None"
    by (cases "databuf bkt")
       (auto simp: databuf_read_def dest: ssl_encrypt_decrypt_stream ssl_decrypt_decrypt_stream)
  with k show ?thesis by simp
qed

lemma ssl_apply_decrypt_stream:
  assumes a: "ssl_apply op c = (r, Some c1)" and d: "decrypt_stream c \<noteq> None"
  shows "decrypt_stream c1 \<noteq> None"
proof (cases op)
  case (BUCKET_READ bkt bufsize requested script)
  with a d show ?thesis
    by (auto simp: ssl_apply_def split: option.splits dest: serf_ssl_read_decrypt_stream)
next
  case (ENCRYPT_CREATE s)
  with a d show ?thesis
    by (auto simp: ssl_apply_def serf_bucket_ssl_encrypt_create_def serf_bucket_ssl_create_def
                   Let_def)
next
  case (DECRYPT_CREATE s)
  with a d show ?thesis
    by (auto simp: ssl_apply_def serf_bucket_ssl_decrypt_create_def serf_bucket_ssl_create_def
                   Let_def)
next
  case (ENCRYPT_DESTROY b)
  with a d show ?thesis
    by (auto simp: ssl_apply_def serf_ssl_encrypt_destroy_and_data_def
                   serf_ssl_destroy_and_data_def Let_def split: if_splits list.splits)
next
  case (DECRYPT_DESTROY b)
  with a d show ?thesis
    by (auto simp: ssl_apply_def serf_ssl_decrypt_destroy_and_data_def
                   serf_ssl_destroy_and_data_def Let_def split: if_splits)
next
  case (SET_CONFIG cfg)
  with a d show ?thesis
    by (auto simp: ssl_apply_def serf_ssl_set_config_def split: prod.splits if_splits)
qed

lemma ssl_run_decrypt_stream:
  "decrypt_stream c \<noteq> None \<Longrightarrow> snd (ssl_run ops c) = Some c' \<Longrightarrow> decrypt_stream c' \<noteq> None"
proof (induction ops arbitrary: c)
  case Nil
  then show ?case by simp
next
  case (Cons op ops)
  obtain r oc where a: "ssl_apply op c = (r, oc)" by (cases "ssl_apply op c")
  show ?case
  proof (cases oc)
    case None
    with a Cons.prems show ?thesis by simp
  next
    case (Some c1)
    with a Cons.prems(2) have "snd (ssl_run ops c1) = Some c'"
      by (simp split: prod.splits)
    with Cons.IH ssl_apply_decrypt_stream [OF a [unfolded Some] Cons.prems(1)]
    show ?thesis by blast
  qed
qed

text \<open>
  C9. On a context whose \<open>decrypt.stream\<close> is not NULL, \<open>serf_bucket_ssl_decrypt_create\<close>
  returns NULL; the context keeps its decrypt stream and only counts one more reference.
  No operation on the pair makes \<open>decrypt.stream\<close> NULL again while the context exists, so
  no later creation can attach another decrypt stream.
\<close>

theorem decrypt_create_second_is_null:
  assumes "decrypt_stream c \<noteq> None"
  shows "serf_bucket_ssl_decrypt_create strm (Some c) = (None, c\<lparr>refcount := refcount c + 1\<rparr>)
       \<and> (\<forall>c'. snd (ssl_run ops c) = Some c' \<longrightarrow> decrypt_stream c' \<noteq> None)"
  using assms ssl_run_decrypt_stream [OF assms, of ops]
  by (auto simp: serf_bucket_ssl_decrypt_create_def serf_bucket_ssl_create_def Let_def)

theorem decrypt_create_second_is_null_witness:
  "decrypt_stream pair_ctx3 = Some [(''abcde'', APR_EAGAIN)]
   \<and> serf_bucket_ssl_decrypt_create [(''new'', APR_EOF)] (Some pair_ctx3)
       = (None, pair_ctx3\<lparr>refcount := 4\<rparr>)
   \<and> map_option decrypt_stream (snd (ssl_run attach_ops pair_ctx3)) = Some (Some [])"
proof -
  have d: "decrypt_stream pair_ctx3 \<noteq> None" "decrypt_stream pair_ctx3 = Some [(''abcde'', APR_EAGAIN)]"
    "refcount pair_ctx3 = 3"
    by (simp_all add: pair_ctx3_def pair_ctx2_def pair_ctx1_def
          serf_bucket_ssl_encrypt_create_def serf_bucket_ssl_decrypt_create_def
          serf_bucket_ssl_create_def ssl_init_context_def Let_def)
  have r: "map_option decrypt_stream (snd (ssl_run attach_ops pair_ctx3)) = Some (Some [])"
    by code_simp
  show ?thesis
    using decrypt_create_second_is_null [OF d(1), of "[(''new'', APR_EOF)]" attach_ops] d r
    by simp
qed

text \<open>
  C10. Every encrypt bucket has \<open>our_stream\<close> pointing at the field \<open>encrypt.stream\<close> itself,
  so the test in \<open>serf_ssl_encrypt_destroy_and_data\<close> compares the field with itself. On a
  pair with one active and one queued request and three bytes of ciphertext pending,
  destroying the bucket of the queued request does not leave the context alone: the active
  stream and the pending ciphertext are dropped, the queued stream becomes the active one,
  the queue becomes empty and the reference count goes from 3 to 2.
\<close>

theorem encrypt_destroy_queued_bucket:
  "our_stream second_encrypt_bucket = ENCRYPT_STREAM
   \<and> ssl_encrypt pair_ctx3 2 [ssl_write_ok 2]
       = Some (APR_SUCCESS, ''XX'',
               pair_ctx3\<lparr>encrypt_stream := Some (AGGREGATE [[(''llo'', APR_EOF)]]),
                         encrypt_pending := Some [''XXX'']\<rparr>)
   \<and> serf_ssl_encrypt_destroy_and_data second_encrypt_bucket
        (pair_ctx3\<lparr>encrypt_stream := Some (AGGREGATE [[(''llo'', APR_EOF)]]),
                   encrypt_pending := Some [''XXX'']\<rparr>)
       = Some (pair_ctx3\<lparr>refcount := 2, encrypt_stream := Some (BARE [(''world'', APR_EOF)]),
                         encrypt_stream_next := [], encrypt_pending := Some []\<rparr>)
   \<and> refcount pair_ctx3 = 3
   \<and> encrypt_stream pair_ctx3 = Some (AGGREGATE [[(''hello'', APR_EOF)]])
   \<and> encrypt_stream_next pair_ctx3 = [[(''world'', APR_EOF)]]"
  by code_simp

text \<open>The early return of \<open>serf_ssl_encrypt_destroy_and_data\<close> is never taken for a bucket
  made by \<open>serf_bucket_ssl_encrypt_create\<close>.\<close>

lemma encrypt_destroy_never_skips:
  "our_stream bkt = ENCRYPT_STREAM \<Longrightarrow> serf_ssl_encrypt_destroy_and_data bkt c \<noteq> Some c"
  by (auto simp: serf_ssl_encrypt_destroy_and_data_def serf_ssl_destroy_and_data_def
                 deref_stream_def Let_def split: list.splits
           dest: arg_cong [where f = refcount])

text \<open>After a failed \<open>SSL_write\<close> the bytes put back and the rest of the request are read
  in one call and handed to a single \<open>SSL_write\<close>; after a queued stream was moved up
  without an aggregate, a failed \<open>SSL_write\<close> has no defined result.\<close>

lemma put_back_read_with_rest:
  "map_option (\<lambda>(st, d, c). (st, d, encrypt_stream c))
     (ssl_encrypt
        (pair_ctx2\<lparr>encrypt_stream := Some (AGGREGATE [[(''he'', APR_SUCCESS), (''llo'', APR_EOF)]])\<rparr>)
        8000 [ssl_write_failure\<lparr>ssl_err := SSL_ERROR_WANT_WRITE\<rparr>])
     = Some (SERF_ERROR_WAIT_CONN, [],
             Some (AGGREGATE [[(''he'', APR_EOF)], [(''llo'', APR_EOF)]]))
   \<and> stream_read_iovec (AGGREGATE [[(''he'', APR_EOF)], [(''llo'', APR_EOF)]]) 8000
     = (APR_EOF, [''he'', ''llo''], AGGREGATE [])
   \<and> map_option (\<lambda>(st, d, c). (st, d, encrypt_stream c))
     (ssl_encrypt
        (pair_ctx2\<lparr>encrypt_stream := Some (AGGREGATE [[(''he'', APR_EOF)], [(''llo'', APR_EOF)]])\<rparr>)
        8000 [ssl_write_ok 5])
     = Some (APR_EOF, ''XXXXX'', Some (AGGREGATE []))
   \<and> ssl_encrypt
        (pair_ctx2\<lparr>encrypt_stream := Some (BARE [(''world'', APR_EOF)])\<rparr>)
        8000 [ssl_write_failure\<lparr>ssl_err := SSL_ERROR_WANT_WRITE\<rparr>]
     = None"
  by code_simp

end
